theory Spec2Isabelle
  imports Complex_Main "HOL-Library.Word"
begin

section \<open>Data model of userprog/addrspace.cc\<close>

text \<open>
  The C++ \<open>int\<close> values of the source (frame numbers, page numbers, process ids, age
  counters) are modelled as \<open>int\<close>; the one \<open>unsigned int\<close> computation whose
  wrap-around is visible (the address-space size) has its \<open>mod 2 ^ 32\<close> written out.
  The age counter \<open>time\<close> is a 32-bit \<open>int\<close> that every fault increments: its
  increment wraps from \<open>INT_MAX\<close> to \<open>INT_MIN\<close>.
  A \<open>char\<close> of the source is a byte.
\<close>

type_synonym byte = "8 word"

text \<open>Every way in which a call can fail to return normally.\<close>

datatype fault =
  Blocked            \<comment> \<open>\<open>Semaphore::P\<close> on a semaphore whose value is 0: the caller sleeps\<close>
  | NullPointer      \<comment> \<open>a member access through a null pointer\<close>
  | OutOfBounds      \<comment> \<open>an array access outside the array\<close>
  | Indeterminate    \<comment> \<open>a read of memory that was never written\<close>
  | AssertFailed     \<comment> \<open>\<open>ASSERT\<close> with a false condition\<close>

text \<open>
  Constants of headers that are not part of the sources (machine.h, addrspace.h, noff.h,
  sysdep.h) are parameters of the model.
\<close>

record config =
  PageSize :: int                  \<comment> \<open>machine.h\<close>
  UserStackSize :: int             \<comment> \<open>addrspace.h\<close>
  NOFFMAGIC :: int                 \<comment> \<open>noff.h\<close>
  WordToHost :: "int \<Rightarrow> int"   \<comment> \<open>byte-order conversion of one word\<close>

text \<open>The anonymous struct of \<open>invPageTable[32]\<close>; a \<open>Thread*\<close> is a thread key,
  \<open>NULL\<close> is \<open>None\<close>.\<close>

record InvEntry =
  time :: int
  process :: int
  processThread :: "nat option"
  page :: int

text \<open>\<open>TranslationEntry\<close> (machine/translate.h). The constructor never assigns
  \<open>physicalPage\<close> (the assignment is commented out), so the field starts indeterminate:
  \<open>None\<close>.\<close>

record TranslationEntry =
  virtualPage :: int
  physicalPage :: "int option"
  valid :: bool
  use :: bool
  dirty :: bool
  readOnly :: bool

record AddrSpace =
  pageTable :: "TranslationEntry list option"   \<comment> \<open>\<open>NULL\<close> is \<open>None\<close>\<close>
  numPages :: nat

text \<open>
  The global state the functions of addrspace.cc read and write: the semaphore, the
  static flag of the constructor, the inverted page table, the frame bitmap \<open>memMap\<close>,
  the simulated physical memory, the file system, the address space of every thread
  (\<open>Thread::space\<close>), the running thread and the eviction mode.
\<close>

record kernel =
  semValue :: nat
  invPageTableNotYetLoaded :: bool
  invPageTable :: "InvEntry list"
  memMap :: "bool list"
  mainMemory :: "byte list"
  fileSystem :: "string \<rightharpoonup> byte list"
  spaces :: "nat \<rightharpoonup> AddrSpace"
  currentThread :: nat
  swapMode :: int

section \<open>C integer arithmetic\<close>

text \<open>Division and remainder of C++ truncate towards zero.\<close>

definition c_div :: "int \<Rightarrow> int \<Rightarrow> int" where
  "c_div a b = sgn a * sgn b * (\<bar>a\<bar> div \<bar>b\<bar>)"

definition c_rem :: "int \<Rightarrow> int \<Rightarrow> int" where
  "c_rem a b = a - b * c_div a b"

section \<open>The eviction policy: FrameSearch\<close>

text \<open>One iteration of the scan of case 1: the pair is \<open>(O, ans)\<close>.\<close>

definition scanStep :: "InvEntry list \<Rightarrow> nat \<Rightarrow> int \<times> int \<Rightarrow> int \<times> int" where
  "scanStep ipt i oa =
     (if time (ipt ! i) > fst oa then (time (ipt ! i), int i) else oa)"

text \<open>\<open>for(int i = 0; i < 32; i++)\<close> from \<open>O = 0, ans = -1\<close>.\<close>

definition agedScan :: "InvEntry list \<Rightarrow> int" where
  "agedScan ipt = snd (fold (scanStep ipt) [0..<32] (0, -1))"

text \<open>\<open>FrameSearch\<close>; \<open>rnd\<close> is the value \<open>Random()\<close> returns when it is called.
  A mode other than 0, 1 and 2 falls through the switch.\<close>

definition FrameSearch :: "int \<Rightarrow> int \<Rightarrow> InvEntry list \<Rightarrow> int" where
  "FrameSearch mode rnd ipt =
     (if mode = 0 then -1
      else if mode = 1 then agedScan ipt
      else if mode = 2 then c_rem rnd 32
      else -1)"

section \<open>External collaborators\<close>

text \<open>
  The classes \<open>Semaphore\<close> (threads/synch.h), \<open>BitMap\<close> (userprog/bitmap.h), \<open>OpenFile\<close>
  and \<open>FileSystem\<close> (filesys) are used by addrspace.cc and are not part of the sources.
  Each operation the file calls is modelled from what the specification says about it.
\<close>

text \<open>Modelled from the spec: \<open>Semaphore::P\<close> is missing. The spec calls
  \<open>invPageTableSemaphore\<close> a single global mutual-exclusion lock that is acquired at the
  entry of the fault resolver; the source declares it with the initial value 1. \<open>P\<close>
  takes the lock when the value is positive and otherwise puts the caller to sleep.\<close>

definition sem_P :: "kernel \<Rightarrow> fault + kernel" where
  "sem_P s = (if semValue s = 0 then Inl Blocked else Inr (s\<lparr>semValue := semValue s - 1\<rparr>))"

text \<open>Modelled from the spec: \<open>Semaphore::V\<close> is missing. It releases the lock.\<close>

definition sem_V :: "kernel \<Rightarrow> kernel" where
  "sem_V s = s\<lparr>semValue := semValue s + 1\<rparr>"

text \<open>Modelled from the spec: the representation of \<open>BitMap\<close> is missing. The spec says that
  the Frame Pool tracks which of the physical frames are free: one bit per frame, set
  when the frame is in use. \<open>firstClear\<close> is the lowest free frame.\<close>

fun firstClear :: "bool list \<Rightarrow> nat option" where
  "firstClear [] = None"
| "firstClear (b # bs) = (if \<not> b then Some 0 else map_option Suc (firstClear bs))"

text \<open>Modelled from the spec: \<open>BitMap::Find\<close> is missing. The spec gives it as
  \<open>findFree() -> frame|none\<close>, which allocates the frame it returns; "none" is \<open>-1\<close>, the
  value the source compares the result with.\<close>

definition BitMap_Find :: "bool list \<Rightarrow> int \<times> bool list" where
  "BitMap_Find m = (case firstClear m of None \<Rightarrow> (-1, m) | Some i \<Rightarrow> (int i, m[i := True]))"

text \<open>Modelled from the spec: \<open>BitMap::Clear\<close> is missing. The spec gives it as
  \<open>release(frame)\<close>; a number that is not a frame of the pool fails an assertion.\<close>

definition BitMap_Clear :: "bool list \<Rightarrow> int \<Rightarrow> fault + bool list" where
  "BitMap_Clear m which =
     (if 0 \<le> which \<and> which < int (length m) then Inr (m[nat which := False])
      else Inl AssertFailed)"

text \<open>Modelled from the spec: \<open>OpenFile::ReadAt\<close> is missing. The spec describes files of
  a fixed byte length with offset-based reads. A file is its bytes; the result is the
  bytes really read: at most \<open>numBytes\<close>, fewer when the file ends first, none for a
  position outside the file.\<close>

definition ReadAt :: "byte list \<Rightarrow> int \<Rightarrow> int \<Rightarrow> byte list" where
  "ReadAt f numBytes position =
     (if numBytes \<le> 0 \<or> position < 0 \<or> int (length f) \<le> position then []
      else take (nat numBytes) (drop (nat position) f))"

text \<open>Modelled from the spec: \<open>OpenFile::WriteAt\<close> (and \<open>Write\<close>, which writes at
  position 0 of a file just opened) is missing. The spec describes offset-based writes
  to files of a fixed byte length: the bytes overwrite those of the file from the
  position on and never extend it.\<close>

definition WriteAt :: "byte list \<Rightarrow> byte list \<Rightarrow> int \<Rightarrow> byte list" where
  "WriteAt f from position =
     (if from = [] \<or> position < 0 \<or> int (length f) \<le> position then f
      else take (nat position) f @ take (length f - nat position) from
             @ drop (nat position + length from) f)"

text \<open>Modelled from the spec: \<open>FileSystem::Create\<close> is missing. The spec says that the
  swap file is created with its exact byte length; the new file is zero-filled.\<close>

definition Create :: "(string \<rightharpoonup> byte list) \<Rightarrow> string \<Rightarrow> nat \<Rightarrow> (string \<rightharpoonup> byte list)" where
  "Create fs name initialSize = fs(name \<mapsto> replicate initialSize 0)"

text \<open>Modelled from the spec: \<open>FileSystem::Open\<close> is missing. It gives the file of that
  name, \<open>NULL\<close> when there is none.\<close>

definition Open :: "(string \<rightharpoonup> byte list) \<Rightarrow> string \<Rightarrow> byte list option" where
  "Open fs name = fs name"

text \<open>Modelled from the spec: \<open>FileSystem::Remove\<close> is missing. It deletes the file.\<close>

definition Remove :: "(string \<rightharpoonup> byte list) \<Rightarrow> string \<Rightarrow> (string \<rightharpoonup> byte list)" where
  "Remove fs name = fs(name := None)"

section \<open>Swap file names\<close>

text \<open>\<open>sprintf(filename, "%d.swap", ID)\<close>: the decimal digits of the number, with a minus
  sign when it is negative.\<close>

function decimal :: "nat \<Rightarrow> string" where
  "decimal n = (if n < 10 then [''0123456789'' ! n]
               else decimal (n div 10) @ [''0123456789'' ! (n mod 10)])"
  by pat_completeness auto
termination
  by (relation "measure id") auto

declare decimal.simps [simp del]

definition swapName :: "int \<Rightarrow> string" where
  "swapName ID =
     (if ID < 0 then CHR ''-'' # decimal (nat (- ID)) else decimal (nat ID)) @ ''.swap''"

text \<open>What a string of decimal digits denotes, as the specification reads the name
  \<open><processId>.swap\<close>: a digit stands for the distance of its character code from
  that of \<open>0\<close>, and the digits, most significant first, give the number.\<close>

definition digitValue :: "char \<Rightarrow> nat" where
  "digitValue c = of_char c - of_char (CHR ''0'')"

definition decimalValue :: "string \<Rightarrow> nat" where
  "decimalValue ds = foldl (\<lambda>a c. 10 * a + digitValue c) 0 ds"

text \<open>\<open>AddrSpace::KillSWAP\<close>.\<close>

definition KillSWAP :: "int \<Rightarrow> kernel \<Rightarrow> kernel" where
  "KillSWAP theThreadID s = s\<lparr>fileSystem := Remove (fileSystem s) (swapName theThreadID)\<rparr>"

section \<open>The fault resolver: AddrSpace::PageFaultLoadPage\<close>

text \<open>
  \<open>PageSize\<close> is a positive compile-time constant; the theorems below assume
  \<open>0 < PageSize cfg\<close>.

  The object the method is called on (\<open>this\<close>) is the address space of the thread
  \<open>self\<close> in the store \<open>spaces\<close>: the page table of the victim's owner, reached through
  \<open>invPageTable[frame].processThread->space\<close>, may be the very page table the fault
  is resolved for.
\<close>

text \<open>Lines 371 to 390, the body of \<open>if(-1 != frame)\<close>: the write-back of the victim
  frame and the invalidation of its owner's entry.\<close>

definition evictFrame :: "config \<Rightarrow> int \<Rightarrow> kernel \<Rightarrow> fault + kernel" where
  "evictFrame cfg frame s =
     (if frame < 0 \<or> 32 \<le> frame then Inl OutOfBounds
      else
        let e = invPageTable s ! nat frame;
            physicalOffset = frame * PageSize cfg;
            virtualOffset = page e * PageSize cfg;
            filename = swapName (process e);
            writeFile = Open (fileSystem s) filename
        in if physicalOffset + PageSize cfg > int (length (mainMemory s)) then Inl OutOfBounds
           else
             let writeData = take (nat (PageSize cfg)) (drop (nat physicalOffset) (mainMemory s))
             in case writeFile of
                  None \<Rightarrow> Inl NullPointer
                | Some f \<Rightarrow>
                    (case processThread e of
                       None \<Rightarrow> Inl NullPointer
                     | Some t \<Rightarrow>
                         (case spaces s t of
                            None \<Rightarrow> Inl NullPointer
                          | Some sp \<Rightarrow>
                              (case pageTable sp of
                                 None \<Rightarrow> Inl NullPointer
                               | Some pt \<Rightarrow>
                                   if page e < 0 \<or> int (length pt) \<le> page e then Inl OutOfBounds
                                   else Inr (s\<lparr>fileSystem := (fileSystem s)
                                                (filename \<mapsto> WriteAt f writeData virtualOffset),
                                              spaces := (spaces s)
                                                (t \<mapsto> sp\<lparr>pageTable := Some
                                                   (pt[nat (page e) :=
                                                      (pt ! nat (page e))\<lparr>valid := False\<rparr>])\<rparr>)\<rparr>)))))"

text \<open>Lines 363 to 393: the frame \<open>memMap->Find()\<close> gave, or the victim of
  \<open>FrameSearch\<close> after its eviction, or \<open>-1\<close>.\<close>

definition acquireFrame :: "config \<Rightarrow> int \<Rightarrow> int \<Rightarrow> kernel \<Rightarrow> fault + (int \<times> kernel)" where
  "acquireFrame cfg rnd frame0 s =
     (if -1 = frame0 then
        (let frame = FrameSearch (swapMode s) rnd (invPageTable s)
         in if -1 \<noteq> frame then
              (case evictFrame cfg frame s of
                 Inl x \<Rightarrow> Inl x
               | Inr s' \<Rightarrow> Inr (frame, s'))
            else Inr (frame, s))
      else Inr (frame0, s))"

text \<open>\<open>time++\<close> on a 32-bit \<open>int\<close>: one more, and \<open>INT_MIN\<close> after \<open>INT_MAX\<close>.\<close>

definition increment :: "int \<Rightarrow> int" where
  "increment t = (if t = 2147483647 then - 2147483648 else t + 1)"

text \<open>Lines 422 and 423: \<open>for(int i = 0; i < 32; i++) invPageTable[i].time++\<close>.\<close>

definition tick :: "InvEntry list \<Rightarrow> InvEntry list" where
  "tick ipt =
     fold (\<lambda>i l. l[i := (l ! i)\<lparr>time := increment (time (l ! i))\<rparr>]) [0..<32] ipt"

text \<open>Lines 398 to 432: the refill of the frame from the swap file of the faulting
  process, the update of the page table entry and of the inverted page table, the
  release of the semaphore.\<close>

definition loadAndInstall ::
    "config \<Rightarrow> nat \<Rightarrow> int \<Rightarrow> int \<Rightarrow> int \<Rightarrow> kernel \<Rightarrow> fault + (int \<times> kernel)" where
  "loadAndInstall cfg self theThreadID pg frame s =
     (let pageOffset = pg * PageSize cfg;
          frameOffset = frame * PageSize cfg
      in case Open (fileSystem s) (swapName theThreadID) of
           None \<Rightarrow> Inl NullPointer
         | Some f \<Rightarrow>
             (let readData = ReadAt f (PageSize cfg) pageOffset
              in if int (length readData) < PageSize cfg then Inl Indeterminate
                 else if frameOffset < 0 \<or> frameOffset + PageSize cfg > int (length (mainMemory s))
                   then Inl OutOfBounds
                 else
                   (case spaces s self of
                      None \<Rightarrow> Inl NullPointer
                    | Some sp \<Rightarrow>
                        (case pageTable sp of
                           None \<Rightarrow> Inl NullPointer
                         | Some pt \<Rightarrow>
                             if pg < 0 \<or> int (length pt) \<le> pg then Inl OutOfBounds
                             else if frame < 0 \<or> 32 \<le> frame then Inl OutOfBounds
                             else Inr (0, sem_V (s\<lparr>
                               mainMemory := take (nat frameOffset) (mainMemory s) @ readData
                                  @ drop (nat frameOffset + nat (PageSize cfg)) (mainMemory s),
                               spaces := (spaces s)(self \<mapsto> sp\<lparr>pageTable := Some
                                  (pt[nat pg := (pt ! nat pg)\<lparr>valid := True, virtualPage := pg,
                                        physicalPage := Some frame\<rparr>])\<rparr>),
                               invPageTable := (tick (invPageTable s))[nat frame :=
                                  \<lparr>time = 0, process = theThreadID,
                                   processThread = Some (currentThread s), page = pg\<rparr>]\<rparr>))))))"

text \<open>\<open>AddrSpace::PageFaultLoadPage\<close>. The result is the returned \<open>int\<close> with the state
  the call leaves behind.\<close>

definition PageFaultLoadPage ::
    "config \<Rightarrow> int \<Rightarrow> nat \<Rightarrow> int \<Rightarrow> int \<Rightarrow> kernel \<Rightarrow> fault + (int \<times> kernel)" where
  "PageFaultLoadPage cfg rnd self pageFaultAddr theThreadID s0 =
     (case sem_P s0 of
        Inl x \<Rightarrow> Inl x
      | Inr s1 \<Rightarrow>
          (let pg = c_div pageFaultAddr (PageSize cfg);
               found = BitMap_Find (memMap s1);
               s2 = s1\<lparr>memMap := snd found\<rparr>
           in case acquireFrame cfg rnd (fst found) s2 of
                Inl x \<Rightarrow> Inl x
              | Inr (frame, s3) \<Rightarrow>
                  if -1 = frame then Inr (1, s3)
                  else loadAndInstall cfg self theThreadID pg frame s3))"

section \<open>Teardown: AddrSpace::~AddrSpace\<close>

text \<open>An inverted page table entry that names no owner.\<close>

definition unowned :: InvEntry where
  "unowned = \<lparr>time = 0, process = -1, processThread = None, page = -1\<rparr>"

text \<open>The destructor runs on the address space of the thread \<open>self\<close> in the store
  \<open>spaces\<close>, the object \<open>Thread::space\<close> points to.

  The body of the loop of lines 137 to 148 for the index \<open>i\<close>: a valid entry gives its
  frame back to \<open>memMap\<close> and resets the frame's entry of the inverted page table
  (\<open>processThread = NULL\<close>, \<open>time = 0\<close>, \<open>process = -1\<close>, \<open>page = -1\<close>); every entry
  ends with \<open>valid = 0\<close> and \<open>dirty = 0\<close>.\<close>

definition releaseEntry :: "nat \<Rightarrow> nat \<Rightarrow> kernel \<Rightarrow> fault + kernel" where
  "releaseEntry self i s =
     (case spaces s self of
        None \<Rightarrow> Inl NullPointer
      | Some sp \<Rightarrow>
          (case pageTable sp of
             None \<Rightarrow> Inl NullPointer
           | Some pt \<Rightarrow>
               if length pt \<le> i then Inl OutOfBounds
               else
                 (case (if valid (pt ! i) then
                          (case physicalPage (pt ! i) of
                             None \<Rightarrow> Inl Indeterminate
                           | Some f \<Rightarrow>
                               (case BitMap_Clear (memMap s) f of
                                  Inl x \<Rightarrow> Inl x
                                | Inr m \<Rightarrow>
                                    if f < 0 \<or> 32 \<le> f then Inl OutOfBounds
                                    else Inr (s\<lparr>memMap := m,
                                               invPageTable := (invPageTable s)
                                                 [nat f := \<lparr>time = 0, process = -1,
                                                             processThread = None, page = -1\<rparr>]\<rparr>)))
                        else Inr s) of
                    Inl x \<Rightarrow> Inl x
                  | Inr s' \<Rightarrow>
                      Inr (s'\<lparr>spaces := (spaces s')
                             (self \<mapsto> sp\<lparr>pageTable := Some
                                (pt[i := (pt ! i)\<lparr>valid := False, dirty := False\<rparr>])\<rparr>)\<rparr>))))"

text \<open>\<open>for(unsigned i = 0; i < numPages; i++)\<close>, over the list of its indices.\<close>

fun releaseLoop :: "nat \<Rightarrow> nat list \<Rightarrow> kernel \<Rightarrow> fault + kernel" where
  "releaseLoop self [] s = Inr s"
| "releaseLoop self (i # is) s =
     (case releaseEntry self i s of Inl x \<Rightarrow> Inl x | Inr s' \<Rightarrow> releaseLoop self is s')"

text \<open>The destructor: the loop over \<open>i < numPages\<close>, then \<open>delete pageTable, pageTable = 0\<close>.
  Nothing happens when \<open>pageTable\<close> is \<open>NULL\<close>.\<close>

definition AddrSpace_destroy :: "nat \<Rightarrow> kernel \<Rightarrow> fault + kernel" where
  "AddrSpace_destroy self s =
     (case spaces s self of
        None \<Rightarrow> Inl NullPointer
      | Some sp \<Rightarrow>
          (case pageTable sp of
             None \<Rightarrow> Inr s
           | Some pt \<Rightarrow>
               (case releaseLoop self [0..<numPages sp] s of
                  Inl x \<Rightarrow> Inl x
                | Inr s' \<Rightarrow>
                    (case spaces s' self of
                       None \<Rightarrow> Inl NullPointer
                     | Some sp' \<Rightarrow>
                         Inr (s'\<lparr>spaces := (spaces s')(self \<mapsto> sp'\<lparr>pageTable := None\<rparr>)\<rparr>)))))"

section \<open>Construction: AddrSpace::AddrSpace and AddrSpace::GenerateSWAP\<close>

text \<open>\<open>Segment\<close> and \<open>NoffHeader\<close> of noff.h.\<close>

record Segment =
  virtualAddr :: int
  inFileAddr :: int
  size' :: int

record NoffHeader =
  noffMagic :: int
  code :: Segment
  initData :: Segment
  uninitData :: Segment

text \<open>An executable file: the header as \<open>ReadAt((char *)&noffH, sizeof(noffH), 0)\<close> fills
  the struct, and the bytes of the file.\<close>

record executable =
  header :: NoffHeader
  contents :: "byte list"

definition swapSegment :: "config \<Rightarrow> Segment \<Rightarrow> Segment" where
  "swapSegment cfg g =
     \<lparr>virtualAddr = WordToHost cfg (virtualAddr g),
      inFileAddr = WordToHost cfg (inFileAddr g),
      size' = WordToHost cfg (size' g)\<rparr>"

definition SwapHeader :: "config \<Rightarrow> NoffHeader \<Rightarrow> NoffHeader" where
  "SwapHeader cfg noffH =
     \<lparr>noffMagic = WordToHost cfg (noffMagic noffH),
      code = swapSegment cfg (code noffH),
      initData = swapSegment cfg (initData noffH),
      uninitData = swapSegment cfg (uninitData noffH)\<rparr>"

text \<open>Lines 95 to 99 and 216 to 220: the header, byte-swapped when only the swapped magic
  number matches, and the assertion.\<close>

definition readHeader :: "config \<Rightarrow> executable \<Rightarrow> fault + NoffHeader" where
  "readHeader cfg exe =
     (let noffH = (if noffMagic (header exe) \<noteq> NOFFMAGIC cfg
                      \<and> WordToHost cfg (noffMagic (header exe)) = NOFFMAGIC cfg
                   then SwapHeader cfg (header exe) else header exe)
      in if noffMagic noffH = NOFFMAGIC cfg then Inr noffH else Inl AssertFailed)"

text \<open>Modelled from the spec: the macro \<open>divRoundUp\<close> (threads/utility.h) is not part of the
  sources. The spec says that the size is rounded up to a whole number of pages: the
  quotient, and one more when there is a remainder.\<close>

definition divRoundUp :: "nat \<Rightarrow> nat \<Rightarrow> nat" where
  "divRoundUp n s = n div s + (if n mod s > 0 then 1 else 0)"

text \<open>Line 102 (and 223): the sum of the three segment sizes and the stack size, stored
  in an \<open>unsigned int\<close>.\<close>

definition addressSpaceSize :: "config \<Rightarrow> NoffHeader \<Rightarrow> nat" where
  "addressSpaceSize cfg noffH =
     nat ((size' (code noffH) + size' (initData noffH) + size' (uninitData noffH)
           + UserStackSize cfg) mod 2 ^ 32)"

text \<open>Lines 78 to 83: \<open>for(int i = 0; i < 32; i++)\<close> resetting the four fields.\<close>

definition resetRegistry :: "InvEntry list \<Rightarrow> InvEntry list" where
  "resetRegistry ipt =
     fold (\<lambda>i l. l[i := (l ! i)\<lparr>time := 0, process := -1, page := -1,
                                processThread := None\<rparr>]) [0..<32] ipt"

text \<open>Lines 73 to 88: the first construction initialises the inverted page table
  under the semaphore.\<close>

definition loadRegistryOnce :: "kernel \<Rightarrow> fault + kernel" where
  "loadRegistryOnce s =
     (if invPageTableNotYetLoaded s then
        (case sem_P s of
           Inl x \<Rightarrow> Inl x
         | Inr s1 \<Rightarrow> Inr (sem_V (s1\<lparr>invPageTable := resetRegistry (invPageTable s1),
                                     invPageTableNotYetLoaded := False\<rparr>)))
      else Inr s)"

text \<open>Lines 109 to 118: entry \<open>i\<close> of the new page table.\<close>

definition freshEntry :: "nat \<Rightarrow> TranslationEntry" where
  "freshEntry i =
     \<lparr>virtualPage = int i, physicalPage = None, valid = False, use = False,
      dirty = False, readOnly = False\<rparr>"

text \<open>The constructor: the new address space and the state it leaves.\<close>

definition AddrSpace_create :: "config \<Rightarrow> executable \<Rightarrow> kernel \<Rightarrow> fault + (AddrSpace \<times> kernel)" where
  "AddrSpace_create cfg exe s =
     (case loadRegistryOnce s of
        Inl x \<Rightarrow> Inl x
      | Inr s' \<Rightarrow>
          (case readHeader cfg exe of
             Inl x \<Rightarrow> Inl x
           | Inr noffH \<Rightarrow>
               (let n = divRoundUp (addressSpaceSize cfg noffH) (nat (PageSize cfg))
                in Inr (\<lparr>pageTable = Some (map freshEntry [0..<n]), numPages = n\<rparr>, s'))))"

text \<open>\<open>executable->ReadAt(&swapData[start], numBytes, inFileAddr)\<close>: the bytes read
  replace those of the buffer from index \<open>start\<close> on; writing outside the buffer is
  out of bounds.\<close>

definition readInto :: "byte list \<Rightarrow> int \<Rightarrow> byte list \<Rightarrow> fault + byte list" where
  "readInto buf start bytes =
     (if bytes = [] then Inr buf
      else if start < 0 \<or> int (length buf) < start + int (length bytes) then Inl OutOfBounds
      else Inr (take (nat start) buf @ bytes @ drop (nat start + length bytes) buf))"

text \<open>\<open>AddrSpace::GenerateSWAP\<close>: the members of the object and the state after the call.\<close>

definition GenerateSWAP ::
    "config \<Rightarrow> executable \<Rightarrow> int \<Rightarrow> AddrSpace \<Rightarrow> kernel \<Rightarrow> fault + (AddrSpace \<times> kernel)" where
  "GenerateSWAP cfg exe ID sp s =
     (case readHeader cfg exe of
        Inl x \<Rightarrow> Inl x
      | Inr noffH \<Rightarrow>
          (let n = divRoundUp (addressSpaceSize cfg noffH) (nat (PageSize cfg));
               size = (n * nat (PageSize cfg)) mod 2 ^ 32;
               filename = swapName ID;
               fs = Create (fileSystem s) filename size
           in case Open fs filename of
                None \<Rightarrow> Inl NullPointer
              | Some swapFile \<Rightarrow>
                  (case (if size' (code noffH) > 0
                         then readInto (replicate size 0) (virtualAddr (code noffH))
                                (ReadAt (contents exe) (size' (code noffH))
                                   (inFileAddr (code noffH)))
                         else Inr (replicate size 0)) of
                     Inl x \<Rightarrow> Inl x
                   | Inr swapData1 \<Rightarrow>
                       (case (if size' (initData noffH) > 0
                              then readInto swapData1 (virtualAddr (initData noffH))
                                     (ReadAt (contents exe) (size' (initData noffH))
                                        (inFileAddr (initData noffH)))
                              else Inr swapData1) of
                          Inl x \<Rightarrow> Inl x
                        | Inr swapData \<Rightarrow>
                            Inr (sp\<lparr>numPages := n\<rparr>,
                                 s\<lparr>fileSystem := fs(filename \<mapsto>
                                      WriteAt swapFile swapData 0)\<rparr>)))))"

section \<open>Concrete configurations and states\<close>

text \<open>A machine with pages of two bytes and a pool of two frames, used to run the
  model: process 7 (thread 0) has an address space of two pages and the swap file
  \<open>7.swap\<close>.\<close>

definition cfg0 :: config where
  "cfg0 = \<lparr>PageSize = 2, UserStackSize = 2, NOFFMAGIC = 12245933, WordToHost = (\<lambda>w. w)\<rparr>"

definition twoPages :: AddrSpace where
  "twoPages = \<lparr>pageTable = Some [freshEntry 0, freshEntry 1], numPages = 2\<rparr>"

text \<open>Both frames are in use and the eviction mode is 0 (abort).\<close>

definition fullPool :: kernel where
  "fullPool =
     \<lparr>semValue = 1, invPageTableNotYetLoaded = False,
      invPageTable = replicate 32 unowned, memMap = [True, True],
      mainMemory = [1, 2, 3, 4], fileSystem = [''7.swap'' \<mapsto> [5, 6, 7, 8]],
      spaces = [0 \<mapsto> twoPages], currentThread = 0, swapMode = 0\<rparr>"

text \<open>Both frames are free.\<close>

definition freePool :: kernel where
  "freePool = fullPool\<lparr>memMap := [False, False], swapMode := 1\<rparr>"

text \<open>Both frames hold pages of process 7: frame 0 its page 1, frame 1 its page 0.
  Process 8 (thread 1) has one page and the swap file \<open>8.swap\<close>; the eviction mode is 1
  (aged victim).\<close>

definition residentPages :: AddrSpace where
  "residentPages =
     \<lparr>pageTable = Some
        [\<lparr>virtualPage = 0, physicalPage = Some 1, valid = True, use = False,
          dirty = False, readOnly = False\<rparr>,
         \<lparr>virtualPage = 1, physicalPage = Some 0, valid = True, use = False,
          dirty = False, readOnly = False\<rparr>],
      numPages = 2\<rparr>"

definition onePage :: AddrSpace where
  "onePage = \<lparr>pageTable = Some [freshEntry 0], numPages = 1\<rparr>"

definition evictState :: kernel where
  "evictState =
     \<lparr>semValue = 1, invPageTableNotYetLoaded = False,
      invPageTable = (replicate 32 unowned)
        [0 := \<lparr>time = 1, process = 7, processThread = Some 0, page = 1\<rparr>,
         1 := \<lparr>time = 0, process = 7, processThread = Some 0, page = 0\<rparr>],
      memMap = [True, True],
      mainMemory = [9, 9, 5, 6],
      fileSystem = [''7.swap'' \<mapsto> [5, 6, 7, 8], ''8.swap'' \<mapsto> [1, 2]],
      spaces = [0 \<mapsto> residentPages, 1 \<mapsto> onePage],
      currentThread = 1, swapMode = 1\<rparr>"

text \<open>A pool of 32 frames, all in use, with the eviction mode 2 (random).\<close>

definition largePool :: kernel where
  "largePool = fullPool\<lparr>memMap := replicate 32 True, swapMode := 2\<rparr>"




text \<open>The state after process 8 faulted on address 0 in \<open>evictState\<close>: frame 0, the
  victim, was written back to page 1 of \<open>7.swap\<close> and now holds page 0 of \<open>8.swap\<close>.\<close>

definition afterEviction :: kernel where
  "afterEviction =
     \<lparr>semValue = 1, invPageTableNotYetLoaded = False,
      invPageTable = (replicate 32 (unowned\<lparr>time := 1\<rparr>))
        [0 := \<lparr>time = 0, process = 8, processThread = Some 1, page = 0\<rparr>,
         1 := \<lparr>time = 1, process = 7, processThread = Some 0, page = 0\<rparr>],
      memMap = [True, True],
      mainMemory = [1, 2, 5, 6],
      fileSystem = [''7.swap'' \<mapsto> [5, 6, 9, 9], ''8.swap'' \<mapsto> [1, 2]],
      spaces = [0 \<mapsto> \<lparr>pageTable = Some
        [\<lparr>virtualPage = 0, physicalPage = Some 1, valid = True, use = False,
          dirty = False, readOnly = False\<rparr>,
         \<lparr>virtualPage = 1, physicalPage = Some 0, valid = False, use = False,
          dirty = False, readOnly = False\<rparr>],
        numPages = 2\<rparr>,
               1 \<mapsto> \<lparr>pageTable = Some
        [\<lparr>virtualPage = 0, physicalPage = Some 0, valid = True, use = False,
          dirty = False, readOnly = False\<rparr>],
        numPages = 1\<rparr>],
      currentThread = 1, swapMode = 1\<rparr>"

text \<open>An executable with three bytes of code at virtual address 0, two bytes of
  initialised data at 3 and two bytes of uninitialised data at 5; the segments follow
  the 40 bytes of the header in the file.\<close>

definition noff0 :: NoffHeader where
  "noff0 =
     \<lparr>noffMagic = 12245933,
      code = \<lparr>virtualAddr = 0, inFileAddr = 40, size' = 3\<rparr>,
      initData = \<lparr>virtualAddr = 3, inFileAddr = 43, size' = 2\<rparr>,
      uninitData = \<lparr>virtualAddr = 5, inFileAddr = 0, size' = 2\<rparr>\<rparr>"

definition exe0 :: executable where
  "exe0 = \<lparr>header = noff0, contents = replicate 40 0 @ [11, 12, 13, 21, 22]\<rparr>"

section \<open>Auxiliary facts\<close>

lemma scan_inv:
  "fold (scanStep ipt) [0..<n] (0, -1) = (ov, a) \<Longrightarrow>
     (if \<forall>i<n. time (ipt ! i) \<le> 0 then ov = 0 \<and> a = -1
      else \<exists>k<n. a = int k \<and> ov = time (ipt ! k) \<and> 0 < ov
             \<and> (\<forall>j<n. time (ipt ! j) \<le> ov) \<and> (\<forall>j<k. time (ipt ! j) < ov))"
proof (induction n arbitrary: ov a)
  case 0
  then show ?case by simp
next
  case (Suc n)
  obtain o1 a1 where st: "fold (scanStep ipt) [0..<n] (0, -1) = (o1, a1)"
    by (cases "fold (scanStep ipt) [0..<n] (0, -1)") auto
  note IH = Suc.IH [OF st]
  from Suc.prems st have step: "scanStep ipt n (o1, a1) = (ov, a)" by simp
  show ?case
  proof (cases "\<forall>i<n. time (ipt ! i) \<le> 0")
    case True
    with IH have o1: "o1 = 0" "a1 = -1" by auto
    show ?thesis
    proof (cases "time (ipt ! n) > 0")
      case gt: True
      with step o1 have "ov = time (ipt ! n)" "a = int n" by (auto simp: scanStep_def)
      with gt True show ?thesis
        by (auto simp: less_Suc_eq intro!: exI [of _ n]) 
    next
      case le: False
      with step o1 have "ov = 0" "a = -1" by (auto simp: scanStep_def)
      with le True show ?thesis by (auto simp: less_Suc_eq)
    qed
  next
    case False
    with IH obtain k where k: "k < n" "a1 = int k" "o1 = time (ipt ! k)" "0 < o1"
      "\<forall>j<n. time (ipt ! j) \<le> o1" "\<forall>j<k. time (ipt ! j) < o1" by auto
    from False have nz: "\<not> (\<forall>i<Suc n. time (ipt ! i) \<le> 0)" by (auto simp: less_Suc_eq)
    show ?thesis
    proof (cases "time (ipt ! n) > o1")
      case gt: True
      with step have r: "ov = time (ipt ! n)" "a = int n" by (auto simp: scanStep_def)
      have "\<forall>j<Suc n. time (ipt ! j) \<le> ov" using k(5) gt r by (auto simp: less_Suc_eq)
      moreover have "\<forall>j<n. time (ipt ! j) < ov" using k(5) gt r by fastforce
      ultimately show ?thesis using nz r gt k(4) by (auto intro!: exI [of _ n])
    next
      case le: False
      with step have r: "ov = o1" "a = a1" by (auto simp: scanStep_def)
      have "\<forall>j<Suc n. time (ipt ! j) \<le> ov" using k(5) le r by (auto simp: less_Suc_eq)
      then show ?thesis using nz r k by (auto intro!: exI [of _ k])
    qed
  qed
qed

lemma agedScan_none:
  assumes "\<forall>i<32. time (ipt ! i) \<le> 0"
  shows "agedScan ipt = -1"
proof -
  obtain ov a where st: "fold (scanStep ipt) [0..<32] (0, -1) = (ov, a)"
    by (cases "fold (scanStep ipt) [0..<32] (0, -1)") auto
  from scan_inv [OF st] assms have "a = -1" by simp
  with st show ?thesis by (simp add: agedScan_def)
qed

lemma agedScan_some:
  assumes "\<exists>i<32. 0 < time (ipt ! i)"
  shows "\<exists>k<32. agedScan ipt = int k \<and> 0 < time (ipt ! k)
           \<and> (\<forall>j<32. time (ipt ! j) \<le> time (ipt ! k))
           \<and> (\<forall>j<k. time (ipt ! j) < time (ipt ! k))"
proof -
  obtain ov a where st: "fold (scanStep ipt) [0..<32] (0, -1) = (ov, a)"
    by (cases "fold (scanStep ipt) [0..<32] (0, -1)") auto
  from assms have "\<not> (\<forall>i<32. time (ipt ! i) \<le> 0)" by (auto simp: not_le)
  with scan_inv [OF st] obtain k where "k < 32" "a = int k" "ov = time (ipt ! k)" "0 < ov"
      "\<forall>j<32. time (ipt ! j) \<le> ov" "\<forall>j<k. time (ipt ! j) < ov" by auto
  with st show ?thesis by (auto simp: agedScan_def)
qed

lemma agedScan_range: "agedScan ipt = -1 \<or> (0 \<le> agedScan ipt \<and> agedScan ipt < 32)"
proof (cases "\<forall>i<32. time (ipt ! i) \<le> 0")
  case True
  then show ?thesis by (simp add: agedScan_none)
next
  case False
  then have "\<exists>i<32. 0 < time (ipt ! i)" by (auto simp: not_le)
  from agedScan_some [OF this] show ?thesis by auto
qed

lemma c_div_nonneg: "0 \<le> a \<Longrightarrow> 0 < b \<Longrightarrow> c_div a b = a div b"
  by (cases "a = 0") (simp_all add: c_div_def)

lemma c_rem_nonneg: "0 \<le> a \<Longrightarrow> 0 < b \<Longrightarrow> c_rem a b = a mod b"
  by (simp add: c_rem_def c_div_nonneg minus_mult_div_eq_mod)

lemma FrameSearch_range:
  "0 \<le> rnd \<Longrightarrow> FrameSearch mode rnd ipt = -1 \<or> (0 \<le> FrameSearch mode rnd ipt \<and> FrameSearch mode rnd ipt < 32)"
  using agedScan_range [of ipt] by (auto simp: FrameSearch_def c_rem_nonneg)

lemma firstClear_None: "firstClear m = None \<longleftrightarrow> (\<forall>b\<in>set m. b)"
  by (induction m) auto


lemma fold_update_map:
  "n \<le> length l \<Longrightarrow>
     fold (\<lambda>i l. l[i := f (l ! i)]) [0..<n] l = map f (take n l) @ drop n l"
proof (induction n)
  case 0
  then show ?case by simp
next
  case (Suc n)
  then have n: "n < length l" by simp
  have "fold (\<lambda>i l. l[i := f (l ! i)]) [0..<Suc n] l
      = (map f (take n l) @ drop n l)[n := f ((map f (take n l) @ drop n l) ! n)]"
    using Suc by simp
  also have "\<dots> = map f (take n l) @ (drop n l)[0 := f (l ! n)]"
    using n by (simp add: list_update_append nth_append)
  also have "\<dots> = map f (take n l) @ f (l ! n) # drop (Suc n) l"
    using n by (simp add: Cons_nth_drop_Suc [symmetric])
  also have "\<dots> = map f (take (Suc n) l) @ drop (Suc n) l"
    using n by (simp add: take_Suc_conv_app_nth)
  finally show ?case .
qed

lemma tick_map: "length ipt = 32 \<Longrightarrow> tick ipt = map (\<lambda>e. e\<lparr>time := increment (time e)\<rparr>) ipt"
  unfolding tick_def using fold_update_map [of 32 ipt "\<lambda>e. e\<lparr>time := increment (time e)\<rparr>"] by simp

lemma resetRegistry_replicate: "length ipt = 32 \<Longrightarrow> resetRegistry ipt = replicate 32 unowned"
proof -
  assume l: "length ipt = 32"
  have "resetRegistry ipt = map (\<lambda>e. e\<lparr>time := 0, process := -1, page := -1, processThread := None\<rparr>) ipt"
    unfolding resetRegistry_def
    using fold_update_map [of 32 ipt "\<lambda>e. e\<lparr>time := 0, process := -1, page := -1, processThread := None\<rparr>"] l
    by simp
  also have "\<dots> = map (\<lambda>e. unowned) ipt" by (simp add: unowned_def)
  also have "\<dots> = replicate 32 unowned" using l by (simp add: map_replicate_const)
  finally show ?thesis .
qed

lemma BitMap_Find_full: "\<forall>b\<in>set m. b \<Longrightarrow> BitMap_Find m = (-1, m)"
  by (simp add: BitMap_Find_def firstClear_None [THEN iffD2])

lemma BitMap_Find_fst: "fst (BitMap_Find m) = -1 \<longleftrightarrow> (\<forall>b\<in>set m. b)"
proof (cases "firstClear m")
  case None
  then show ?thesis by (simp add: BitMap_Find_def firstClear_None [symmetric])
next
  case (Some i)
  then have "\<not> (\<forall>b\<in>set m. b)" by (simp add: firstClear_None [symmetric])
  with Some show ?thesis by (simp add: BitMap_Find_def)
qed


lemma evictFrame_Inr:
  assumes "evictFrame cfg frame s = Inr s'"
  shows "0 \<le> frame \<and> frame < 32
    \<and> frame * PageSize cfg + PageSize cfg \<le> int (length (mainMemory s))
    \<and> (\<exists>f t sp pt.
          fileSystem s (swapName (process (invPageTable s ! nat frame))) = Some f
        \<and> processThread (invPageTable s ! nat frame) = Some t
        \<and> spaces s t = Some sp \<and> pageTable sp = Some pt
        \<and> 0 \<le> page (invPageTable s ! nat frame)
        \<and> page (invPageTable s ! nat frame) < int (length pt)
        \<and> s' = s\<lparr>fileSystem := (fileSystem s)
                  (swapName (process (invPageTable s ! nat frame)) \<mapsto>
                     WriteAt f (take (nat (PageSize cfg))
                                  (drop (nat (frame * PageSize cfg)) (mainMemory s)))
                       (page (invPageTable s ! nat frame) * PageSize cfg)),
                spaces := (spaces s)
                  (t \<mapsto> sp\<lparr>pageTable := Some
                     (pt[nat (page (invPageTable s ! nat frame)) :=
                        (pt ! nat (page (invPageTable s ! nat frame)))\<lparr>valid := False\<rparr>])\<rparr>)\<rparr>)"
  using assms
  by (auto simp: evictFrame_def Let_def Open_def split: if_splits option.splits)

lemma loadAndInstall_Inr:
  assumes "loadAndInstall cfg self tid pg frame s = Inr (r, s')"
  shows "r = 0 \<and> 0 \<le> frame \<and> frame < 32 \<and> 0 \<le> pg
    \<and> 0 \<le> frame * PageSize cfg
    \<and> frame * PageSize cfg + PageSize cfg \<le> int (length (mainMemory s))
    \<and> (\<exists>f sp pt.
          fileSystem s (swapName tid) = Some f
        \<and> PageSize cfg \<le> int (length (ReadAt f (PageSize cfg) (pg * PageSize cfg)))
        \<and> spaces s self = Some sp \<and> pageTable sp = Some pt \<and> pg < int (length pt)
        \<and> s' = sem_V (s\<lparr>
             mainMemory := take (nat (frame * PageSize cfg)) (mainMemory s)
                @ ReadAt f (PageSize cfg) (pg * PageSize cfg)
                @ drop (nat (frame * PageSize cfg) + nat (PageSize cfg)) (mainMemory s),
             spaces := (spaces s)(self \<mapsto> sp\<lparr>pageTable := Some
                (pt[nat pg := (pt ! nat pg)\<lparr>valid := True, virtualPage := pg,
                      physicalPage := Some frame\<rparr>])\<rparr>),
             invPageTable := (tick (invPageTable s))[nat frame :=
                \<lparr>time = 0, process = tid,
                 processThread = Some (currentThread s), page = pg\<rparr>]\<rparr>))"
  using assms
  by (auto simp: loadAndInstall_def Let_def Open_def split: if_splits option.splits)

lemma acquireFrame_Inr:
  assumes "acquireFrame cfg rnd frame0 s = Inr (frame, s')"
  shows "(frame0 \<noteq> -1 \<longrightarrow> frame = frame0 \<and> s' = s)
       \<and> (frame0 = -1 \<longrightarrow> frame = FrameSearch (swapMode s) rnd (invPageTable s)
             \<and> (frame = -1 \<longrightarrow> s' = s)
             \<and> (frame \<noteq> -1 \<longrightarrow> evictFrame cfg frame s = Inr s'))"
  using assms
  by (auto simp: acquireFrame_def Let_def split: if_splits sum.splits)

lemma PageFaultLoadPage_Inr:
  assumes "PageFaultLoadPage cfg rnd self addr tid s = Inr (r, s')"
  shows "0 < semValue s \<and>
     (\<exists>frame s3.
        acquireFrame cfg rnd (fst (BitMap_Find (memMap s)))
          (s\<lparr>semValue := semValue s - 1, memMap := snd (BitMap_Find (memMap s))\<rparr>)
          = Inr (frame, s3)
      \<and> (if frame = -1 then r = 1 \<and> s' = s3
          else loadAndInstall cfg self tid (c_div addr (PageSize cfg)) frame s3 = Inr (r, s')))"
proof -
  let ?s2 = "s\<lparr>semValue := semValue s - 1, memMap := snd (BitMap_Find (memMap s))\<rparr>"
  let ?acq = "acquireFrame cfg rnd (fst (BitMap_Find (memMap s))) ?s2"
  from assms have pos: "0 < semValue s"
    by (cases "semValue s = 0") (simp_all add: PageFaultLoadPage_def sem_P_def)
  then have P: "sem_P s = Inr (s\<lparr>semValue := semValue s - 1\<rparr>)"
    by (simp add: sem_P_def)
  show ?thesis
  proof (cases ?acq)
    case (Inl x)
    with assms P show ?thesis by (simp add: PageFaultLoadPage_def Let_def)
  next
    case (Inr fs)
    obtain frame s3 where fs: "fs = (frame, s3)" by (cases fs)
    with assms P Inr pos show ?thesis
      by (simp add: PageFaultLoadPage_def Let_def split: if_splits)
  qed
qed

lemma PageFaultLoadPage_no_victim:
  assumes sem: "0 < semValue s"
    and full: "\<forall>b\<in>set (memMap s). b"
    and none: "FrameSearch (swapMode s) rnd (invPageTable s) = -1"
  shows "PageFaultLoadPage cfg rnd self addr tid s = Inr (1, s\<lparr>semValue := semValue s - 1\<rparr>)"
proof -
  from sem have P: "sem_P s = Inr (s\<lparr>semValue := semValue s - 1\<rparr>)"
    by (simp add: sem_P_def)
  from full have F: "BitMap_Find (memMap s) = (-1, memMap s)"
    by (rule BitMap_Find_full)
  have A: "acquireFrame cfg rnd (-1) (s\<lparr>semValue := semValue s - 1\<rparr>)
             = Inr (-1, s\<lparr>semValue := semValue s - 1\<rparr>)"
    using none by (simp add: acquireFrame_def)
  show ?thesis
    using A by (simp add: PageFaultLoadPage_def P F)
qed

lemma fullPool_fields:
  "semValue fullPool = 1" "memMap fullPool = [True, True]" "swapMode fullPool = 0"
  "invPageTable fullPool = replicate 32 unowned"
  by (simp_all add: fullPool_def)

lemma evict_registry_nth:
  "i < 32 \<Longrightarrow> time (invPageTable evictState ! i) = (if i = 0 then 1 else 0)"
  by (simp add: evictState_def unowned_def nth_list_update)



lemma WriteAt_inside:
  assumes "0 \<le> pos" "pos + int (length d) \<le> int (length f)" "d \<noteq> []"
  shows "length (WriteAt f d pos) = length f
       \<and> take (length d) (drop (nat pos) (WriteAt f d pos)) = d"
proof -
  from assms have lt: "\<not> int (length f) \<le> pos" by (cases d) auto
  from assms have le: "nat pos + length d \<le> length f" by linarith
  then have tk: "take (length f - nat pos) d = d" by simp
  have eq: "WriteAt f d pos = take (nat pos) f @ d @ drop (nat pos + length d) f"
    using assms lt tk by (simp add: WriteAt_def)
  have "length (WriteAt f d pos) = length f" using le by (simp add: eq)
  moreover have "drop (nat pos) (WriteAt f d pos) = d @ drop (nat pos + length d) f"
    using le by (simp add: eq)
  ultimately show ?thesis by simp
qed

lemma eviction_effects:
  assumes ok: "PageFaultLoadPage cfg rnd self addr tid s = Inr (0, s')"
    and ps: "0 < PageSize cfg"
    and full: "\<forall>b\<in>set (memMap s). b"
    and fr: "frame = FrameSearch (swapMode s) rnd (invPageTable s)"
    and pg: "pg = c_div addr (PageSize cfg)"
    and vp: "vpage = page (invPageTable s ! nat frame)"
    and vf: "vfile = swapName (process (invPageTable s ! nat frame))"
    and old: "fileSystem s vfile = Some old"
    and inside: "vpage * PageSize cfg + PageSize cfg \<le> int (length old)"
    and len: "length (invPageTable s) = 32"
  shows "\<exists>new t sp pt sp' pt'.
       fileSystem s' vfile = Some new \<and> length new = length old
     \<and> take (nat (PageSize cfg)) (drop (nat (vpage * PageSize cfg)) new)
         = take (nat (PageSize cfg)) (drop (nat (frame * PageSize cfg)) (mainMemory s))
     \<and> length (take (nat (PageSize cfg)) (drop (nat (frame * PageSize cfg)) (mainMemory s)))
         = nat (PageSize cfg)
     \<and> processThread (invPageTable s ! nat frame) = Some t
     \<and> spaces s' t = Some sp \<and> pageTable sp = Some pt \<and> nat vpage < length pt
     \<and> (\<not> (t = self \<and> vpage = pg) \<longrightarrow> \<not> valid (pt ! nat vpage))
     \<and> spaces s' self = Some sp' \<and> pageTable sp' = Some pt' \<and> nat pg < length pt'
     \<and> valid (pt' ! nat pg) \<and> physicalPage (pt' ! nat pg) = Some frame
     \<and> process (invPageTable s' ! nat frame) = tid
     \<and> page (invPageTable s' ! nat frame) = pg"
proof -
  let ?s2 = "s\<lparr>semValue := semValue s - 1, memMap := snd (BitMap_Find (memMap s))\<rparr>"
  let ?PS = "PageSize cfg"
  let ?e = "invPageTable s ! nat frame"
  from full have f0: "fst (BitMap_Find (memMap s)) = -1" by (simp add: BitMap_Find_fst)
  from PageFaultLoadPage_Inr [OF ok] f0 obtain frame' s3 where
    acq: "acquireFrame cfg rnd (-1) ?s2 = Inr (frame', s3)"
    and rest: "if frame' = -1 then (0::int) = 1 \<and> s' = s3
               else loadAndInstall cfg self tid (c_div addr ?PS) frame' s3 = Inr (0, s')"
    by auto
  from rest have ne: "frame' \<noteq> -1" by (auto split: if_splits)
  with rest pg have li: "loadAndInstall cfg self tid pg frame' s3 = Inr (0, s')" by simp
  from acquireFrame_Inr [OF acq] ne fr have ff: "frame' = frame"
    and ev: "evictFrame cfg frame ?s2 = Inr s3" by auto
  from evictFrame_Inr [OF ev] vp vf obtain f t sp pt where
    b: "0 \<le> frame" "frame < 32" "frame * ?PS + ?PS \<le> int (length (mainMemory s))"
    and f: "fileSystem s vfile = Some f"
    and t: "processThread ?e = Some t" "spaces s t = Some sp" "pageTable sp = Some pt"
       "0 \<le> vpage" "vpage < int (length pt)"
    and s3: "s3 = ?s2\<lparr>fileSystem := (fileSystem s)
                  (vfile \<mapsto> WriteAt f (take (nat ?PS) (drop (nat (frame * ?PS)) (mainMemory s)))
                       (vpage * ?PS)),
                spaces := (spaces s)
                  (t \<mapsto> sp\<lparr>pageTable := Some (pt[nat vpage := (pt ! nat vpage)\<lparr>valid := False\<rparr>])\<rparr>)\<rparr>"
    by auto
  from f old have fo: "f = old" by simp
  let ?d = "take (nat ?PS) (drop (nat (frame * ?PS)) (mainMemory s))"
  let ?new = "WriteAt old ?d (vpage * ?PS)"
  let ?ptv = "pt[nat vpage := (pt ! nat vpage)\<lparr>valid := False\<rparr>]"
  have "0 \<le> frame * ?PS" using b ps by simp
  with b have "nat (frame * ?PS) + nat ?PS \<le> length (mainMemory s)" using ps by linarith
  then have dlen: "length ?d = nat ?PS" by simp
  then have dne: "?d \<noteq> []" using ps by auto
  have "0 \<le> vpage * ?PS" using t ps by simp
  moreover have "vpage * ?PS + int (length ?d) \<le> int (length old)"
    using inside dlen ps by simp
  ultimately have W: "length ?new = length old \<and> take (length ?d) (drop (nat (vpage * ?PS)) ?new) = ?d"
    using dne by (rule WriteAt_inside)
  from loadAndInstall_Inr [OF li] ff obtain f2 sp2 pt2 where
    c: "0 \<le> pg"
    and sp2: "spaces s3 self = Some sp2" "pageTable sp2 = Some pt2" "pg < int (length pt2)"
    and s': "s' = sem_V (s3\<lparr>
             mainMemory := take (nat (frame * ?PS)) (mainMemory s3)
                @ ReadAt f2 ?PS (pg * ?PS)
                @ drop (nat (frame * ?PS) + nat ?PS) (mainMemory s3),
             spaces := (spaces s3)(self \<mapsto> sp2\<lparr>pageTable := Some
                (pt2[nat pg := (pt2 ! nat pg)\<lparr>valid := True, virtualPage := pg,
                      physicalPage := Some frame\<rparr>])\<rparr>),
             invPageTable := (tick (invPageTable s3))[nat frame :=
                \<lparr>time = 0, process = tid,
                 processThread = Some (currentThread s3), page = pg\<rparr>]\<rparr>)"
    by blast
  let ?pt' = "pt2[nat pg := (pt2 ! nat pg)\<lparr>valid := True, virtualPage := pg,
                      physicalPage := Some frame\<rparr>]"
  have 1: "fileSystem s' vfile = Some ?new" by (simp add: s' sem_V_def s3 fo)
  have pgn: "nat pg < length pt2" using sp2 c by simp
  have vpn: "nat vpage < length pt" using t by simp
  have 2: "spaces s' self = Some (sp2\<lparr>pageTable := Some ?pt'\<rparr>)" by (simp add: s' sem_V_def)
  have 3: "valid (?pt' ! nat pg) \<and> physicalPage (?pt' ! nat pg) = Some frame"
    using pgn by simp
  have 4: "invPageTable s' = (map (\<lambda>e. e\<lparr>time := increment (time e)\<rparr>) (invPageTable s))
            [nat frame := \<lparr>time = 0, process = tid,
                            processThread = Some (currentThread s), page = pg\<rparr>]"
    by (simp add: s' sem_V_def s3 tick_map [OF len])
  have fl: "nat frame < length (map (\<lambda>e. e\<lparr>time := increment (time e)\<rparr>) (invPageTable s))"
    using b len by simp
  have 5: "process (invPageTable s' ! nat frame) = tid \<and> page (invPageTable s' ! nat frame) = pg"
    unfolding 4 using fl by (simp only: nth_list_update_eq) simp
  show ?thesis
  proof (cases "t = self")
    case True
    with sp2 s3 have e2: "sp2 = sp\<lparr>pageTable := Some ?ptv\<rparr>" "pt2 = ?ptv" by auto
    have 6: "\<not> (t = self \<and> vpage = pg) \<longrightarrow> \<not> valid (?pt' ! nat vpage)"
      using True t c vpn by (auto simp: e2 nth_list_update)
    have 7: "spaces s' t = Some (sp2\<lparr>pageTable := Some ?pt'\<rparr>)" using 2 True by simp
    have 8: "nat vpage < length ?pt'" using vpn by (simp add: e2)
    show ?thesis
      apply (rule exI [of _ ?new])
      apply (rule exI [of _ t])
      apply (rule exI [of _ "sp2\<lparr>pageTable := Some ?pt'\<rparr>"])
      apply (rule exI [of _ ?pt'])
      apply (rule exI [of _ "sp2\<lparr>pageTable := Some ?pt'\<rparr>"])
      apply (rule exI [of _ ?pt'])
      using 1 W dlen t(1) 7 8 6 2 pgn 3 5 by simp
  next
    case False
    have 7: "spaces s' t = Some (sp\<lparr>pageTable := Some ?ptv\<rparr>)"
      using False by (simp add: s' sem_V_def s3)
    have 6: "\<not> valid (?ptv ! nat vpage)" using vpn by simp
    have 8: "nat vpage < length ?ptv" using vpn by simp
    show ?thesis
      apply (rule exI [of _ ?new])
      apply (rule exI [of _ t])
      apply (rule exI [of _ "sp\<lparr>pageTable := Some ?ptv\<rparr>"])
      apply (rule exI [of _ ?ptv])
      apply (rule exI [of _ "sp2\<lparr>pageTable := Some ?pt'\<rparr>"])
      apply (rule exI [of _ ?pt'])
      using 1 W dlen t(1) 7 8 6 2 pgn 3 5 by simp
  qed
qed

lemma swapName_7: "swapName 7 = ''7.swap''"
  by (simp add: swapName_def decimal.simps)

lemma swapName_8: "swapName 8 = ''8.swap''"
  by (simp add: swapName_def decimal.simps)



lemma FrameSearch_evictState: "FrameSearch 1 rnd (invPageTable evictState) = 0"
proof -
  have "\<exists>i<32. 0 < time (invPageTable evictState ! i)"
    by (rule exI [of _ 0]) (simp add: evict_registry_nth)
  from agedScan_some [OF this]
  obtain k where k: "k < 32" "agedScan (invPageTable evictState) = int k"
    "0 < time (invPageTable evictState ! k)"
    by blast
  from k(1,3) have "k = 0" by (simp add: evict_registry_nth split: if_splits)
  with k(2) show ?thesis by (simp add: FrameSearch_def)
qed

lemma tick_evictState:
  "tick (invPageTable evictState) = (replicate 32 (unowned\<lparr>time := 1\<rparr>))
        [0 := \<lparr>time = 2, process = 7, processThread = Some 0, page = 1\<rparr>,
         1 := \<lparr>time = 1, process = 7, processThread = Some 0, page = 0\<rparr>]"
  by (simp add: tick_map evictState_def unowned_def map_update increment_def)

lemma evictState_fields:
  "semValue evictState = 1" "memMap evictState = [True, True]" "swapMode evictState = 1"
  "mainMemory evictState = [9, 9, 5, 6]" "currentThread evictState = 1"
  "fileSystem evictState = [''7.swap'' \<mapsto> [5, 6, 7, 8], ''8.swap'' \<mapsto> [1, 2]]"
  "spaces evictState = [0 \<mapsto> residentPages, 1 \<mapsto> onePage]"
  "invPageTable evictState ! 0 = \<lparr>time = 1, process = 7, processThread = Some 0, page = 1\<rparr>"
  "length (invPageTable evictState) = 32"
  "invPageTableNotYetLoaded evictState = False"
  by (simp_all add: evictState_def)

lemma update_0_1_0: "xs[0 := a, Suc 0 := b, 0 := c] = xs[0 := c, Suc 0 := b]"
  by (cases xs) (simp_all add: list_update_code)

lemma run_evict: "PageFaultLoadPage cfg0 0 1 0 8 evictState = Inr (0, afterEviction)"
proof -
  let ?s2 = "evictState\<lparr>semValue := 0, memMap := [True, True]\<rparr>"
  let ?s3 = "?s2\<lparr>fileSystem := [''7.swap'' \<mapsto> [5, 6, 9, 9], ''8.swap'' \<mapsto> [1, 2]],
       spaces := [0 \<mapsto> \<lparr>pageTable = Some
        [\<lparr>virtualPage = 0, physicalPage = Some 1, valid = True, use = False,
          dirty = False, readOnly = False\<rparr>,
         \<lparr>virtualPage = 1, physicalPage = Some 0, valid = False, use = False,
          dirty = False, readOnly = False\<rparr>],
        numPages = 2\<rparr>, 1 \<mapsto> onePage]\<rparr>"
  have ev: "evictFrame cfg0 0 ?s2 = Inr ?s3"
    by (simp add: evictFrame_def Let_def evictState_fields cfg0_def Open_def swapName_7
        WriteAt_def residentPages_def fun_upd_twist)
  have acq: "acquireFrame cfg0 0 (-1) ?s2 = Inr (0, ?s3)"
    using ev by (simp add: acquireFrame_def Let_def evictState_fields FrameSearch_evictState)
  have li: "loadAndInstall cfg0 1 8 0 0 ?s3 = Inr (0, afterEviction)"
    by (simp add: loadAndInstall_def Let_def evictState_fields cfg0_def Open_def swapName_8
        ReadAt_def sem_V_def onePage_def freshEntry_def tick_evictState afterEviction_def
        update_0_1_0)
  show ?thesis
    using acq li
    by (simp add: PageFaultLoadPage_def sem_P_def BitMap_Find_def Let_def evictState_fields
        c_div_def)
qed




lemma cfg0_PageSize: "PageSize cfg0 = 2"
  by (simp add: cfg0_def)

lemma freePool_fields:
  "semValue freePool = 1" "memMap freePool = [False, False]" "swapMode freePool = 1"
  "invPageTable freePool = replicate 32 unowned" "spaces freePool = [0 \<mapsto> twoPages]"
  "currentThread freePool = 0" "mainMemory freePool = [1, 2, 3, 4]"
  "fileSystem freePool = [''7.swap'' \<mapsto> [5, 6, 7, 8]]"
  by (simp_all add: freePool_def fullPool_def)

lemma releaseLoop_append:
  "releaseLoop self (xs @ ys) s =
     (case releaseLoop self xs s of Inl x \<Rightarrow> Inl x | Inr s' \<Rightarrow> releaseLoop self ys s')"
  by (induction xs arbitrary: s) (auto split: sum.splits)

lemma releaseLoop_prefix:
  assumes sp: "spaces s self = Some sp" and pt: "pageTable sp = Some pt"
    and frames: "\<forall>e\<in>set pt. valid e \<longrightarrow>
             (\<exists>f. physicalPage e = Some (int f) \<and> f < 32 \<and> f < length (memMap s))"
    and reg: "length (invPageTable s) = 32"
    and n: "n \<le> length pt"
  shows "\<exists>m r. releaseLoop self [0..<n] s
             = Inr (s\<lparr>memMap := m, invPageTable := r,
                      spaces := (spaces s)(self \<mapsto> sp\<lparr>pageTable := Some
                        (map (\<lambda>e. e\<lparr>valid := False, dirty := False\<rparr>) (take n pt)
                           @ drop n pt)\<rparr>)\<rparr>)
         \<and> length m = length (memMap s) \<and> length r = 32
         \<and> (\<forall>f<length (memMap s). m ! f =
               (if \<exists>e\<in>set (take n pt). valid e \<and> physicalPage e = Some (int f)
                then False else memMap s ! f))
         \<and> (\<forall>f<32. r ! f =
               (if \<exists>e\<in>set (take n pt). valid e \<and> physicalPage e = Some (int f)
                then \<lparr>time = 0, process = -1, processThread = None, page = -1\<rparr>
                else invPageTable s ! f))"
  using n
proof (induction n)
  case 0
  have a: "sp\<lparr>pageTable := Some pt\<rparr> = sp" using pt by simp
  have b: "(spaces s)(self \<mapsto> sp) = spaces s" using sp by (rule fun_upd_idem)
  have e: "s\<lparr>memMap := memMap s, invPageTable := invPageTable s,
               spaces := (spaces s)(self \<mapsto> sp\<lparr>pageTable := Some
                 (map (\<lambda>e. e\<lparr>valid := False, dirty := False\<rparr>) (take 0 pt) @ drop 0 pt)\<rparr>)\<rparr> = s"
    by (simp only: take_0 drop_0 list.map append_Nil a b) simp
  show ?case
    apply (rule exI [of _ "memMap s"])
    apply (rule exI [of _ "invPageTable s"])
    apply (simp only: e)
    apply (simp add: reg)
    done
next
  case (Suc n)
  let ?clr = "\<lambda>e. e\<lparr>valid := False, dirty := False\<rparr>"
  let ?un = "\<lparr>time = 0, process = -1, processThread = None, page = -1\<rparr> :: InvEntry"
  let ?own = "\<lambda>k f. \<exists>e\<in>set (take k pt). valid e \<and> physicalPage e = Some (int f)"
  let ?ptn = "map ?clr (take n pt) @ drop n pt"
  let ?st = "\<lambda>m r p. s\<lparr>memMap := m, invPageTable := r,
                      spaces := (spaces s)(self \<mapsto> sp\<lparr>pageTable := Some p\<rparr>)\<rparr>"
  from Suc.prems have nlt: "n < length pt" by simp
  then have "n \<le> length pt" by simp
  from Suc.IH [OF this] have ex: "\<exists>m r.
     releaseLoop self [0..<n] s = Inr (?st m r ?ptn)
     \<and> length m = length (memMap s) \<and> length r = 32
     \<and> (\<forall>f<length (memMap s). m ! f = (if ?own n f then False else memMap s ! f))
     \<and> (\<forall>f<32. r ! f = (if ?own n f then ?un else invPageTable s ! f))" .
  then obtain m r where all:
    "releaseLoop self [0..<n] s = Inr (?st m r ?ptn)
     \<and> length m = length (memMap s) \<and> length r = 32
     \<and> (\<forall>f<length (memMap s). m ! f = (if ?own n f then False else memMap s ! f))
     \<and> (\<forall>f<32. r ! f = (if ?own n f then ?un else invPageTable s ! f))"
    by (elim exE)
  note run = all [THEN conjunct1]
  note lm = all [THEN conjunct2, THEN conjunct1]
  note lr = all [THEN conjunct2, THEN conjunct2, THEN conjunct1]
  note mm = all [THEN conjunct2, THEN conjunct2, THEN conjunct2, THEN conjunct1]
  note rr = all [THEN conjunct2, THEN conjunct2, THEN conjunct2, THEN conjunct2]
  have nth: "?ptn ! n = pt ! n" using nlt by (simp add: nth_append)
  have lptn: "length ?ptn = length pt" using nlt by simp
  have upd: "?ptn[n := ?clr (pt ! n)] = map ?clr (take (Suc n) pt) @ drop (Suc n) pt"
    using nlt
    by (simp add: list_update_append take_Suc_conv_app_nth Cons_nth_drop_Suc [symmetric])
  have own_Suc: "?own (Suc n) f \<longleftrightarrow> ?own n f \<or> (valid (pt ! n) \<and> physicalPage (pt ! n) = Some (int f))"
    for f using nlt by (auto simp: take_Suc_conv_app_nth)
  have split: "releaseLoop self [0..<Suc n] s = releaseEntry self n (?st m r ?ptn)"
    by (simp add: releaseLoop_append run split: sum.splits)
  show ?case
  proof (cases "valid (pt ! n)")
    case False
    then have "releaseEntry self n (?st m r ?ptn) = Inr (?st m r (?ptn[n := ?clr (pt ! n)]))"
      using nlt by (simp add: releaseEntry_def nth lptn del: length_append length_map)
    with split upd have
      "releaseLoop self [0..<Suc n] s
         = Inr (?st m r (map ?clr (take (Suc n) pt) @ drop (Suc n) pt))"
      by simp
    moreover have "\<forall>f<length (memMap s). m ! f = (if ?own (Suc n) f then False else memMap s ! f)"
      using mm False by (simp add: own_Suc)
    moreover have "\<forall>f<32. r ! f = (if ?own (Suc n) f then ?un else invPageTable s ! f)"
      using rr False by (simp add: own_Suc)
    ultimately show ?thesis using lm lr by blast
  next
    case True
    from nlt have "pt ! n \<in> set pt" by simp
    with frames True obtain f where
      f: "physicalPage (pt ! n) = Some (int f)" "f < 32" "f < length (memMap s)" by blast
    have "releaseEntry self n (?st m r ?ptn)
            = Inr (?st (m[f := False]) (r[f := ?un]) (?ptn[n := ?clr (pt ! n)]))"
      using nlt True f lm
      by (simp add: releaseEntry_def nth lptn BitMap_Clear_def
          del: length_append length_map)
    with split upd have A:
      "releaseLoop self [0..<Suc n] s
         = Inr (?st (m[f := False]) (r[f := ?un])
                  (map ?clr (take (Suc n) pt) @ drop (Suc n) pt))"
      by simp
    have B: "\<forall>g<length (memMap s). (m[f := False]) ! g
                     = (if ?own (Suc n) g then False else memMap s ! g)"
      using mm True f lm by (auto simp: own_Suc nth_list_update)
    have C: "\<forall>g<32. (r[f := ?un]) ! g
                     = (if ?own (Suc n) g then ?un else invPageTable s ! g)"
      using rr True f lr by (auto simp: own_Suc nth_list_update)
    show ?thesis
      apply (rule exI [of _ "m[f := False]"])
      apply (rule exI [of _ "r[f := ?un]"])
      apply (intro conjI)
          apply (rule A)
         apply (simp add: lm)
        apply (simp add: lr)
       apply (rule B)
      apply (rule C)
      done
  qed
qed

lemma card_frames:
  assumes d: "distinct (map physicalPage (filter valid pt))"
    and fr: "\<forall>e\<in>set pt. valid e \<longrightarrow> (\<exists>f::nat. physicalPage e = Some (int f))"
  shows "card {f::nat. \<exists>e\<in>set pt. valid e \<and> physicalPage e = Some (int f)}
           = length (filter valid pt)"
proof -
  let ?F = "{f::nat. \<exists>e\<in>set pt. valid e \<and> physicalPage e = Some (int f)}"
  let ?P = "set (map physicalPage (filter valid pt))"
  have img: "(\<lambda>f. Some (int f)) ` ?F = ?P"
  proof
    show "(\<lambda>f. Some (int f)) ` ?F \<subseteq> ?P" by force
    show "?P \<subseteq> (\<lambda>f. Some (int f)) ` ?F"
    proof
      fix x assume "x \<in> ?P"
      then obtain e where e: "e \<in> set pt" "valid e" "x = physicalPage e" by auto
      with fr obtain f :: nat where "physicalPage e = Some (int f)" by blast
      with e show "x \<in> (\<lambda>f. Some (int f)) ` ?F" by auto
    qed
  qed
  have "inj_on (\<lambda>f::nat. Some (int f)) ?F" by (simp add: inj_on_def)
  then have "card ?F = card ((\<lambda>f. Some (int f)) ` ?F)" by (simp add: card_image)
  also have "\<dots> = card ?P" by (simp only: img)
  also have "\<dots> = length (map physicalPage (filter valid pt))" using d by (rule distinct_card)
  finally show ?thesis by simp
qed

lemma residentPages_fields:
  "pageTable residentPages = Some
        [\<lparr>virtualPage = 0, physicalPage = Some 1, valid = True, use = False,
          dirty = False, readOnly = False\<rparr>,
         \<lparr>virtualPage = 1, physicalPage = Some 0, valid = True, use = False,
          dirty = False, readOnly = False\<rparr>]"
  "numPages residentPages = 2"
  by (simp_all add: residentPages_def)

lemma divRoundUp_ceiling:
  assumes "0 \<le> a" "0 < p"
  shows "int (divRoundUp (nat a) (nat p)) = \<lceil>real_of_int a / real_of_int p\<rceil>"
proof -
  have d: "int (nat a div nat p) = a div p" using assms by (simp add: zdiv_int)
  have m: "int (nat a mod nat p) = a mod p" using assms by (simp add: zmod_int)
  then have mz: "nat a mod nat p > 0 \<longleftrightarrow> a mod p \<noteq> 0" by linarith
  have "\<lceil>real_of_int a / real_of_int p\<rceil> = - (- a div p)" by (rule ceiling_divide_eq_div)
  also have "\<dots> = a div p + (if a mod p = 0 then 0 else 1)"
    using assms by (simp add: zdiv_zminus1_eq_if)
  finally show ?thesis using d mz by (simp add: divRoundUp_def)
qed

lemma divRoundUp_bound:
  assumes "0 < p"
  shows "divRoundUp a p * p < a + p"
proof -
  have e: "a = a div p * p + a mod p" by simp
  have l: "a mod p < p" using assms by simp
  show ?thesis
  proof (cases "a mod p > 0")
    case True
    then have "divRoundUp a p * p = a div p * p + p" by (simp add: divRoundUp_def)
    with e True show ?thesis by linarith
  next
    case False
    then have "divRoundUp a p * p = a div p * p" by (simp add: divRoundUp_def)
    with e False assms show ?thesis by linarith
  qed
qed

lemma addressSpaceSize_total:
  assumes "0 \<le> asz" "asz < 2 ^ 31"
    and "asz = size' (code noffH) + size' (initData noffH) + size' (uninitData noffH)
                   + UserStackSize cfg"
  shows "addressSpaceSize cfg noffH = nat asz"
proof -
  from assms(1,2) have "asz mod 2 ^ 32 = asz" by simp
  with assms(3) show ?thesis by (simp add: addressSpaceSize_def)
qed

lemma loadRegistryOnce_ok:
  assumes "invPageTableNotYetLoaded s \<longrightarrow> 0 < semValue s"
  shows "\<exists>s'. loadRegistryOnce s = Inr s' \<and> mainMemory s' = mainMemory s
           \<and> memMap s' = memMap s \<and> fileSystem s' = fileSystem s \<and> semValue s' = semValue s"
  using assms by (auto simp: loadRegistryOnce_def sem_P_def sem_V_def)

lemma readInto_ok:
  assumes "0 \<le> start" "start + int (length bs) \<le> int (length buf)"
  shows "readInto buf start bs
           = Inr (take (nat start) buf @ bs @ drop (nat start + length bs) buf)"
proof (cases "bs = []")
  case True
  then show ?thesis by (simp add: readInto_def)
next
  case False
  with assms show ?thesis by (simp add: readInto_def)
qed

lemma ReadAt_inside:
  assumes "0 \<le> n" "0 \<le> pos" "pos + n \<le> int (length f)"
  shows "ReadAt f n pos = take (nat n) (drop (nat pos) f) \<and> length (ReadAt f n pos) = nat n"
proof (cases "n = 0")
  case True
  then show ?thesis by (simp add: ReadAt_def)
next
  case False
  with assms have "\<not> (n \<le> 0 \<or> pos < 0 \<or> int (length f) \<le> pos)" by linarith
  then have "ReadAt f n pos = take (nat n) (drop (nat pos) f)" by (simp add: ReadAt_def)
  moreover have "nat pos + nat n \<le> length f" using assms by linarith
  ultimately show ?thesis by simp
qed

lemma segment_read:
  assumes sz: "0 \<le> size' g"
    and fl: "0 \<le> inFileAddr g" "inFileAddr g + size' g \<le> int (length f)"
    and va: "0 \<le> virtualAddr g" "virtualAddr g + size' g \<le> int (length buf)"
    and bs: "bs = take (nat (size' g)) (drop (nat (inFileAddr g)) f)"
  shows "(if size' g > 0
          then readInto buf (virtualAddr g) (ReadAt f (size' g) (inFileAddr g))
          else Inr buf)
         = Inr (take (nat (virtualAddr g)) buf @ bs @ drop (nat (virtualAddr g) + length bs) buf)
       \<and> length bs = nat (size' g)"
proof -
  from ReadAt_inside [OF sz fl] bs have r: "ReadAt f (size' g) (inFileAddr g) = bs"
    by simp
  from ReadAt_inside [OF sz fl] have "length (ReadAt f (size' g) (inFileAddr g)) = nat (size' g)"
    by blast
  with r have l: "length bs = nat (size' g)" by simp
  show ?thesis
  proof (cases "size' g > 0")
    case True
    have "virtualAddr g + int (length bs) \<le> int (length buf)" using va l sz by simp
    from readInto_ok [OF va(1) this] True r l show ?thesis by simp
  next
    case False
    with sz l have "bs = []" by simp
    with False l show ?thesis by simp
  qed
qed

lemma overlay_nth:
  assumes "a + length bs \<le> length buf" "k < length buf"
  shows "(take a buf @ bs @ drop (a + length bs) buf) ! k
           = (if a \<le> k \<and> k < a + length bs then bs ! (k - a) else buf ! k)"
    and "length (take a buf @ bs @ drop (a + length bs) buf) = length buf"
  using assms by (auto simp: nth_append min_def)

lemma WriteAt_whole: "length d = length f \<Longrightarrow> WriteAt f d 0 = d"
  by (cases "d = []") (auto simp: WriteAt_def)

lemma readHeader_exe0: "readHeader cfg0 exe0 = Inr noff0"
  by (simp add: readHeader_def exe0_def noff0_def cfg0_def)

lemma noff0_fields:
  "code noff0 = \<lparr>virtualAddr = 0, inFileAddr = 40, size' = 3\<rparr>"
  "initData noff0 = \<lparr>virtualAddr = 3, inFileAddr = 43, size' = 2\<rparr>"
  "size' (uninitData noff0) = 2" "UserStackSize cfg0 = 2"
  by (simp_all add: noff0_def cfg0_def)

lemma divRoundUp_9_2: "divRoundUp 9 (nat (PageSize cfg0)) = 5"
  by (simp add: divRoundUp_def cfg0_PageSize)

lemma WriteAt_length: "length (WriteAt f d pos) = length f"
proof (cases "d = [] \<or> pos < 0 \<or> int (length f) \<le> pos")
  case True
  then show ?thesis by (simp add: WriteAt_def)
next
  case False
  then have p: "nat pos < length f" by linarith
  from False have "WriteAt f d pos = take (nat pos) f @ take (length f - nat pos) d
             @ drop (nat pos + length d) f" by (simp add: WriteAt_def)
  then show ?thesis using p by (simp add: min_def)
qed

lemma loadAndInstall_ok:
  assumes "fileSystem s (swapName tid) = Some f"
    and "length (ReadAt f (PageSize cfg) (pg * PageSize cfg)) = nat (PageSize cfg)"
    and "0 < PageSize cfg"
    and "0 \<le> frame" "frame < 32"
    and "frame * PageSize cfg + PageSize cfg \<le> int (length (mainMemory s))"
    and "spaces s self = Some sp" "pageTable sp = Some pt" "0 \<le> pg" "pg < int (length pt)"
  shows "\<exists>s'. loadAndInstall cfg self tid pg frame s = Inr (0, s')"
proof -
  have "\<not> frame * PageSize cfg < 0" using assms(3,4) by (simp add: not_less)
  with assms show ?thesis
    by (simp add: loadAndInstall_def Let_def Open_def not_less not_le)
qed

lemma eviction_succeeds:
  assumes ps: "0 < PageSize cfg"
    and sem: "0 < semValue s"
    and full: "\<forall>b\<in>set (memMap s). b"
    and fr: "frame = FrameSearch (swapMode s) rnd (invPageTable s)"
    and victim: "0 \<le> frame" "frame < 32"
    and mem: "frame * PageSize cfg + PageSize cfg \<le> int (length (mainMemory s))"
    and pg: "pg = c_div addr (PageSize cfg)"
    and vp: "vpage = page (invPageTable s ! nat frame)"
    and vf: "vfile = swapName (process (invPageTable s ! nat frame))"
    and old: "fileSystem s vfile = Some old"
    and owner: "processThread (invPageTable s ! nat frame) = Some t"
       "spaces s t = Some spt" "pageTable spt = Some ptt"
       "0 \<le> vpage" "vpage < int (length ptt)"
    and swap: "fileSystem s (swapName tid) = Some f"
       "pg * PageSize cfg + PageSize cfg \<le> int (length f)"
    and self: "spaces s self = Some sp" "pageTable sp = Some pt"
       "0 \<le> pg" "pg < int (length pt)"
  shows "\<exists>s'. PageFaultLoadPage cfg rnd self addr tid s = Inr (0, s')"
proof -
  let ?PS = "PageSize cfg"
  let ?s2 = "s\<lparr>semValue := semValue s - 1, memMap := memMap s\<rparr>"
  let ?wd = "take (nat ?PS) (drop (nat (frame * ?PS)) (mainMemory s))"
  let ?ptt' = "ptt[nat vpage := (ptt ! nat vpage)\<lparr>valid := False\<rparr>]"
  let ?s3 = "?s2\<lparr>fileSystem := (fileSystem s)(vfile \<mapsto> WriteAt old ?wd (vpage * ?PS)),
                 spaces := (spaces s)(t \<mapsto> spt\<lparr>pageTable := Some ?ptt'\<rparr>)\<rparr>"
  from sem have P: "sem_P s = Inr (s\<lparr>semValue := semValue s - 1\<rparr>)"
    by (simp add: sem_P_def)
  from full have F: "BitMap_Find (memMap s) = (-1, memMap s)" by (rule BitMap_Find_full)
  have ne: "frame \<noteq> -1" using victim by simp
  have ev: "evictFrame cfg frame ?s2 = Inr ?s3"
    using victim mem old owner vp [symmetric] vf [symmetric]
    by (simp add: evictFrame_def Let_def Open_def)
  have acq: "acquireFrame cfg rnd (-1) ?s2 = Inr (frame, ?s3)"
    using ne ev fr [symmetric] by (simp add: acquireFrame_def Let_def)
  obtain f3 where f3: "fileSystem ?s3 (swapName tid) = Some f3" "length f3 = length f"
  proof (cases "swapName tid = vfile")
    case True
    with swap old have "f = old" by simp
    with True have "fileSystem ?s3 (swapName tid) = Some (WriteAt old ?wd (vpage * ?PS))"
      "length (WriteAt old ?wd (vpage * ?PS)) = length f"
      by (simp_all add: WriteAt_length)
    then show ?thesis by (rule that)
  next
    case False
    with swap have "fileSystem ?s3 (swapName tid) = Some f" by simp
    then show ?thesis using that by simp
  qed
  have pgo: "0 \<le> pg * ?PS" using self(3) ps by simp
  have rdl: "length (ReadAt f3 ?PS (pg * ?PS)) = nat ?PS"
    using ReadAt_inside [of ?PS "pg * ?PS" f3] ps pgo swap(2) f3(2) by simp
  obtain sp3 pt3 where p3: "spaces ?s3 self = Some sp3" "pageTable sp3 = Some pt3"
    "length pt3 = length pt"
  proof (cases "t = self")
    case True
    with owner self have "spt = sp" "ptt = pt" by simp_all
    with True have "spaces ?s3 self = Some (spt\<lparr>pageTable := Some ?ptt'\<rparr>)"
      "pageTable (spt\<lparr>pageTable := Some ?ptt'\<rparr>) = Some ?ptt'" "length ?ptt' = length pt"
      by simp_all
    then show ?thesis by (rule that)
  next
    case False
    with self have "spaces ?s3 self = Some sp" by simp
    then show ?thesis using self(2) that by simp
  qed
  have mem3: "frame * ?PS + ?PS \<le> int (length (mainMemory ?s3))" using mem by simp
  have li: "\<exists>s'. loadAndInstall cfg self tid pg frame ?s3 = Inr (0, s')"
    using f3(1) rdl ps victim mem3 p3(1,2) self(3) _
  proof (rule loadAndInstall_ok)
    show "pg < int (length pt3)" using self(4) p3(3) by simp
  qed
  then obtain s' where "loadAndInstall cfg self tid pg frame ?s3 = Inr (0, s')" ..
  with acq ne have "PageFaultLoadPage cfg rnd self addr tid s = Inr (0, s')"
    by (simp add: PageFaultLoadPage_def P F Let_def pg [symmetric])
  then show ?thesis ..
qed




text \<open>The name of a swap file: the decimal digits of the identifier, then \<open>.swap\<close>.\<close>

lemma digit_nth:
  assumes "d < 10"
  shows "digitValue (''0123456789'' ! d) = d" and "''0123456789'' ! d \<in> set ''0123456789''"
proof -
  from assms have "d \<in> {0, 1, 2, 3, 4, 5, 6, 7, 8, 9}" by auto
  then show "digitValue (''0123456789'' ! d) = d" by (auto simp: digitValue_def)
  from assms show "''0123456789'' ! d \<in> set ''0123456789''"
    by (intro nth_mem) simp
qed

lemma decimalValue_snoc: "decimalValue (ds @ [c]) = 10 * decimalValue ds + digitValue c"
  by (simp add: decimalValue_def)

lemma decimal_nonempty: "decimal n \<noteq> []"
  by (subst decimal.simps) simp

lemma decimal_value: "decimalValue (decimal n) = n"
proof (induction n rule: decimal.induct)
  case (1 n)
  show ?case
  proof (cases "n < 10")
    case True
    then have "decimal n = [''0123456789'' ! n]" by (subst decimal.simps) simp
    with True show ?thesis by (simp add: decimalValue_def digit_nth(1))
  next
    case False
    then have "decimal n = decimal (n div 10) @ [''0123456789'' ! (n mod 10)]"
      by (subst decimal.simps) simp
    moreover have "decimalValue (decimal (n div 10)) = n div 10" using False by (rule "1.IH")
    moreover have "digitValue (''0123456789'' ! (n mod 10)) = n mod 10"
      by (rule digit_nth(1)) simp
    ultimately show ?thesis by (simp add: decimalValue_snoc)
  qed
qed

lemma decimal_digits: "set (decimal n) \<subseteq> set ''0123456789''"
proof (induction n rule: decimal.induct)
  case (1 n)
  show ?case
  proof (cases "n < 10")
    case True
    then have "decimal n = [''0123456789'' ! n]" by (subst decimal.simps) simp
    with digit_nth(2) [OF True] show ?thesis by simp
  next
    case False
    then have "decimal n = decimal (n div 10) @ [''0123456789'' ! (n mod 10)]"
      by (subst decimal.simps) simp
    moreover have "set (decimal (n div 10)) \<subseteq> set ''0123456789''" using False by (rule "1.IH")
    moreover have "''0123456789'' ! (n mod 10) \<in> set ''0123456789''"
      by (rule digit_nth(2)) simp
    ultimately show ?thesis by simp
  qed
qed

lemma decimal_leading_zero: "hd (decimal n) = CHR ''0'' \<Longrightarrow> n = 0"
proof (induction n rule: decimal.induct)
  case (1 n)
  show ?case
  proof (cases "n < 10")
    case True
    then have "decimal n = [''0123456789'' ! n]" by (subst decimal.simps) simp
    with "1.prems" have "''0123456789'' ! n = CHR ''0''" by simp
    then have "digitValue (''0123456789'' ! n) = 0" by (simp add: digitValue_def)
    with digit_nth(1) [OF True] show ?thesis by simp
  next
    case False
    then have "decimal n = decimal (n div 10) @ [''0123456789'' ! (n mod 10)]"
      by (subst decimal.simps) simp
    with "1.prems" have "hd (decimal (n div 10)) = CHR ''0''"
      by (simp add: decimal_nonempty)
    with False have "n div 10 = 0" by (rule "1.IH")
    with False show ?thesis by simp
  qed
qed

lemma swapName_decimal:
  "\<exists>ds. swapName ID = (if ID < 0 then ''-'' else []) @ ds @ ''.swap''
        \<and> ds \<noteq> [] \<and> set ds \<subseteq> set ''0123456789''
        \<and> decimalValue ds = nat \<bar>ID\<bar>
        \<and> (hd ds = CHR ''0'' \<longrightarrow> ID = 0)"
proof -
  let ?ds = "decimal (nat \<bar>ID\<bar>)"
  have 1: "swapName ID = (if ID < 0 then ''-'' else []) @ ?ds @ ''.swap''"
    by (simp add: swapName_def abs_if)
  have 2: "?ds \<noteq> []" by (rule decimal_nonempty)
  have 3: "set ?ds \<subseteq> set ''0123456789''" by (rule decimal_digits)
  have 4: "decimalValue ?ds = nat \<bar>ID\<bar>" by (rule decimal_value)
  have 5: "hd ?ds = CHR ''0'' \<longrightarrow> ID = 0"
  proof
    assume "hd ?ds = CHR ''0''"
    then have "nat \<bar>ID\<bar> = 0" by (rule decimal_leading_zero)
    then show "ID = 0" by simp
  qed
  from 1 2 3 4 5 show ?thesis by (intro exI [of _ ?ds] conjI)
qed

lemma swapName_examples:
  "swapName 120 = ''120.swap''" "swapName (-3) = ''-3.swap''" "swapName 0 = ''0.swap''"
  by (simp_all add: swapName_def decimal.simps)

text \<open>The file left by \<open>GenerateSWAP\<close>.\<close>

lemma GenerateSWAP_file:
  assumes ps: "0 < PageSize cfg" "PageSize cfg < 2 ^ 31"
    and hdr: "readHeader cfg exe = Inr noffH"
    and c: "c = code noffH" and d: "d = initData noffH"
    and sizes: "0 \<le> size' c" "0 \<le> size' d" "0 \<le> size' (uninitData noffH)"
       "0 \<le> UserStackSize cfg"
    and asz: "asz = size' c + size' d + size' (uninitData noffH) + UserStackSize cfg"
    and fits: "asz < 2 ^ 31"
    and n: "n = divRoundUp (nat asz) (nat (PageSize cfg))"
    and cfile: "0 \<le> inFileAddr c" "inFileAddr c + size' c \<le> int (length (contents exe))"
    and cva: "0 \<le> virtualAddr c" "virtualAddr c + size' c \<le> int n * PageSize cfg"
    and dfile: "0 \<le> inFileAddr d" "inFileAddr d + size' d \<le> int (length (contents exe))"
    and dva: "0 \<le> virtualAddr d" "virtualAddr d + size' d \<le> int n * PageSize cfg"
    and disj: "virtualAddr c + size' c \<le> virtualAddr d \<or> virtualAddr d + size' d \<le> virtualAddr c"
  shows "\<exists>s' data.
       GenerateSWAP cfg exe ID sp s = Inr (sp\<lparr>numPages := n\<rparr>, s')
     \<and> fileSystem s' (swapName ID) = Some data
     \<and> int (length data) = int n * PageSize cfg
     \<and> (\<forall>j. 0 \<le> j \<and> j < size' c \<longrightarrow>
            data ! nat (virtualAddr c + j) = contents exe ! nat (inFileAddr c + j))
     \<and> (\<forall>j. 0 \<le> j \<and> j < size' d \<longrightarrow>
            data ! nat (virtualAddr d + j) = contents exe ! nat (inFileAddr d + j))
     \<and> (\<forall>k. 0 \<le> k \<and> k < int (length data)
            \<and> \<not> (virtualAddr c \<le> k \<and> k < virtualAddr c + size' c)
            \<and> \<not> (virtualAddr d \<le> k \<and> k < virtualAddr d + size' d) \<longrightarrow> data ! nat k = 0)
     \<and> (\<forall>name. name \<noteq> swapName ID \<longrightarrow> fileSystem s' name = fileSystem s name)
     \<and> mainMemory s' = mainMemory s"
proof -
  let ?P = "nat (PageSize cfg)"
  let ?f = "contents exe"
  let ?vc = "nat (virtualAddr c)" and ?vd = "nat (virtualAddr d)"
  define N where "N = n * ?P"
  define buf0 where "buf0 = replicate N (0::byte)"
  define bc where "bc = take (nat (size' c)) (drop (nat (inFileAddr c)) ?f)"
  define bd where "bd = take (nat (size' d)) (drop (nat (inFileAddr d)) ?f)"
  define buf1 where "buf1 = take ?vc buf0 @ bc @ drop (?vc + length bc) buf0"
  define buf2 where "buf2 = take ?vd buf1 @ bd @ drop (?vd + length bd) buf1"
  from sizes asz have a0: "0 \<le> asz" by simp
  have sz: "addressSpaceSize cfg noffH = nat asz"
    using a0 fits asz unfolding c d by (rule addressSpaceSize_total)
  have P0: "0 < ?P" using ps by simp
  from divRoundUp_bound [OF P0, of "nat asz"] n have "N < nat asz + ?P" by (simp add: N_def)
  also have "\<dots> < 2 ^ 32" using a0 fits ps by simp
  finally have small: "N mod 2 ^ 32 = N" by simp
  have iN: "int N = int n * PageSize cfg" using ps by (simp add: N_def)
  have l0: "length buf0 = N" by (simp add: buf0_def)
  have z0: "buf0 ! k = 0" if "k < N" for k using that by (simp add: buf0_def)
  have cva0: "virtualAddr c + size' c \<le> int (length buf0)" using cva(2) iN l0 by simp
  from segment_read [OF sizes(1) cfile cva(1) cva0 bc_def]
  have r1: "(if size' c > 0
          then readInto buf0 (virtualAddr c) (ReadAt ?f (size' c) (inFileAddr c))
          else Inr buf0) = Inr buf1"
    and lc: "length bc = nat (size' c)" unfolding buf1_def by blast+
  have fitc: "?vc + length bc \<le> length buf0" using cva0 cva(1) sizes(1) lc by linarith
  have l1: "length buf1 = N" unfolding buf1_def using fitc l0 by simp
  have dva1: "virtualAddr d + size' d \<le> int (length buf1)" using dva(2) iN l1 by simp
  from segment_read [OF sizes(2) dfile dva(1) dva1 bd_def]
  have r2: "(if size' d > 0
          then readInto buf1 (virtualAddr d) (ReadAt ?f (size' d) (inFileAddr d))
          else Inr buf1) = Inr buf2"
    and ld: "length bd = nat (size' d)" unfolding buf2_def by blast+
  have fitd: "?vd + length bd \<le> length buf1" using dva1 dva(1) sizes(2) ld by linarith
  have l2: "length buf2 = N" unfolding buf2_def using fitd l1 by simp
  have wr: "WriteAt buf0 buf2 0 = buf2" using l2 l0 by (simp add: WriteAt_whole)
  let ?s' = "s\<lparr>fileSystem := (Create (fileSystem s) (swapName ID) N)(swapName ID \<mapsto> buf2)\<rparr>"
  have size_eq: "(n * nat (PageSize cfg)) mod 2 ^ 32 = N" using small by (simp add: N_def)
  have opened: "Open (Create (fileSystem s) (swapName ID) N) (swapName ID) = Some buf0"
    by (simp add: Open_def Create_def buf0_def)
  have run: "GenerateSWAP cfg exe ID sp s = Inr (sp\<lparr>numPages := n\<rparr>, ?s')"
    unfolding GenerateSWAP_def
    by (simp only: hdr sum.case Let_def sz n [symmetric] size_eq opened option.case
        buf0_def [symmetric] c [symmetric] d [symmetric] r1 r2 wr)
  have nth2: "buf2 ! k = (if ?vd \<le> k \<and> k < ?vd + length bd then bd ! (k - ?vd)
                else if ?vc \<le> k \<and> k < ?vc + length bc then bc ! (k - ?vc) else 0)"
    if "k < N" for k
  proof -
    from that l1 have k1: "k < length buf1" by simp
    from that l0 have k0: "k < length buf0" by simp
    have "buf2 ! k = (if ?vd \<le> k \<and> k < ?vd + length bd then bd ! (k - ?vd) else buf1 ! k)"
      unfolding buf2_def using fitd k1 by (rule overlay_nth(1))
    moreover have "buf1 ! k = (if ?vc \<le> k \<and> k < ?vc + length bc then bc ! (k - ?vc)
                                 else buf0 ! k)"
      unfolding buf1_def using fitc k0 by (rule overlay_nth(1))
    ultimately show ?thesis using z0 [OF that] by simp
  qed
  have code_bytes: "buf2 ! nat (virtualAddr c + j) = ?f ! nat (inFileAddr c + j)"
    if j: "0 \<le> j" "j < size' c" for j
  proof -
    let ?k = "nat (virtualAddr c + j)"
    have kN: "?k < N" using j cva iN by linarith
    have notd: "\<not> (?vd \<le> ?k \<and> ?k < ?vd + length bd)"
      using disj j cva dva sizes ld by auto
    have inc: "?vc \<le> ?k \<and> ?k < ?vc + length bc" using j cva lc by auto
    have kk: "?k - ?vc = nat j" using j cva by auto
    have jl: "nat j < nat (size' c)" using j by simp
    have fl: "nat (inFileAddr c) + nat j < length ?f" using j cfile by linarith
    have "buf2 ! ?k = bc ! nat j" using nth2 [OF kN] notd inc kk by simp
    also have "\<dots> = ?f ! (nat (inFileAddr c) + nat j)"
      unfolding bc_def using jl fl by simp
    also have "nat (inFileAddr c) + nat j = nat (inFileAddr c + j)" using j cfile by auto
    finally show ?thesis .
  qed
  have data_bytes: "buf2 ! nat (virtualAddr d + j) = ?f ! nat (inFileAddr d + j)"
    if j: "0 \<le> j" "j < size' d" for j
  proof -
    let ?k = "nat (virtualAddr d + j)"
    have kN: "?k < N" using j dva iN by linarith
    have ind: "?vd \<le> ?k \<and> ?k < ?vd + length bd" using j dva ld by auto
    have kk: "?k - ?vd = nat j" using j dva by auto
    have jl: "nat j < nat (size' d)" using j by simp
    have fl: "nat (inFileAddr d) + nat j < length ?f" using j dfile by linarith
    have "buf2 ! ?k = bd ! nat j" using nth2 [OF kN] ind kk by simp
    also have "\<dots> = ?f ! (nat (inFileAddr d) + nat j)"
      unfolding bd_def using jl fl by simp
    also have "nat (inFileAddr d) + nat j = nat (inFileAddr d + j)" using j dfile by auto
    finally show ?thesis .
  qed
  have zero: "buf2 ! nat k = 0"
    if k: "0 \<le> k" "k < int (length buf2)"
      "\<not> (virtualAddr c \<le> k \<and> k < virtualAddr c + size' c)"
      "\<not> (virtualAddr d \<le> k \<and> k < virtualAddr d + size' d)" for k
  proof -
    have kN: "nat k < N" using k l2 by simp
    have notd: "\<not> (?vd \<le> nat k \<and> nat k < ?vd + length bd)"
      using k dva sizes ld by auto
    have notc: "\<not> (?vc \<le> nat k \<and> nat k < ?vc + length bc)"
      using k cva sizes lc by auto
    from nth2 [OF kN] notd notc show ?thesis by simp
  qed
  have 1: "fileSystem ?s' (swapName ID) = Some buf2" by simp
  have 2: "int (length buf2) = int n * PageSize cfg" using l2 iN by simp
  have 3: "\<forall>name. name \<noteq> swapName ID \<longrightarrow> fileSystem ?s' name = fileSystem s name"
    by (simp add: Create_def)
  have 4: "mainMemory ?s' = mainMemory s" by simp
  show ?thesis
    apply (rule exI [of _ ?s'])
    apply (rule exI [of _ buf2])
    apply (intro conjI)
    subgoal by (rule run)
    subgoal by (rule 1)
    subgoal by (rule 2)
    subgoal using code_bytes by blast
    subgoal using data_bytes by blast
    subgoal using zero by blast
    subgoal by (rule 3)
    subgoal by (rule 4)
    done
qed






section \<open>The claims\<close>

subsection \<open>C1: the semaphore on the return paths of PageFaultLoadPage\<close>

text \<open>C1. The claim says that \<open>invPageTableSemaphore\<close> is released on every return path of
  \<open>PageFaultLoadPage\<close>, the failure path included. The source returns 1 at line 395
  without \<open>invPageTableSemaphore.V()\<close>: with a full pool and the eviction mode 0 the call
  returns 1 and leaves the semaphore at 0, and the next call on that state blocks.\<close>

theorem failure_path_keeps_lock:
  "PageFaultLoadPage cfg0 0 0 0 7 fullPool = Inr (1, fullPool\<lparr>semValue := 0\<rparr>)
   \<and> PageFaultLoadPage cfg0 0 0 0 7 (fullPool\<lparr>semValue := 0\<rparr>) = Inl Blocked"
proof
  have "PageFaultLoadPage cfg0 0 0 0 7 fullPool = Inr (1, fullPool\<lparr>semValue := semValue fullPool - 1\<rparr>)"
    by (rule PageFaultLoadPage_no_victim) (simp_all add: fullPool_fields FrameSearch_def)
  then show "PageFaultLoadPage cfg0 0 0 0 7 fullPool = Inr (1, fullPool\<lparr>semValue := 0\<rparr>)"
    by (simp add: fullPool_fields)
  show "PageFaultLoadPage cfg0 0 0 0 7 (fullPool\<lparr>semValue := 0\<rparr>) = Inl Blocked"
    by (simp add: PageFaultLoadPage_def sem_P_def)
qed

subsection \<open>C2: failure commits no partial state\<close>

text \<open>C2. When the semaphore is free, no frame of the pool is free and \<open>FrameSearch\<close> yields
  no victim (\<open>-1\<close>: the eviction mode 0, or mode 1 when the scan finds none),
  \<open>PageFaultLoadPage\<close> returns 1 and the page tables of all address spaces, the inverted
  page table, the frame bitmap, the swap files and the physical memory are as before.\<close>

theorem no_victim_no_partial_state:
  assumes "0 < semValue s"
    and "\<forall>b\<in>set (memMap s). b"
    and "FrameSearch (swapMode s) rnd (invPageTable s) = -1"
  shows "\<exists>s'. PageFaultLoadPage cfg rnd self addr tid s = Inr (1, s')
           \<and> spaces s' = spaces s \<and> invPageTable s' = invPageTable s
           \<and> memMap s' = memMap s \<and> fileSystem s' = fileSystem s
           \<and> mainMemory s' = mainMemory s"
  using PageFaultLoadPage_no_victim [OF assms] by simp

text \<open>An instance of C2 in the eviction mode 0 and one in mode 1 with no positive age
  counter.\<close>

theorem no_victim_no_partial_state_witness:
  "(\<exists>s'. PageFaultLoadPage cfg0 0 0 0 7 fullPool = Inr (1, s')
           \<and> spaces s' = spaces fullPool \<and> invPageTable s' = invPageTable fullPool
           \<and> memMap s' = memMap fullPool \<and> fileSystem s' = fileSystem fullPool
           \<and> mainMemory s' = mainMemory fullPool)
   \<and> (\<exists>s'. PageFaultLoadPage cfg0 0 0 0 7 (fullPool\<lparr>swapMode := 1\<rparr>) = Inr (1, s')
           \<and> spaces s' = spaces fullPool \<and> invPageTable s' = invPageTable fullPool
           \<and> memMap s' = memMap fullPool \<and> fileSystem s' = fileSystem fullPool
           \<and> mainMemory s' = mainMemory fullPool)"
proof
  have "FrameSearch (swapMode fullPool) 0 (invPageTable fullPool) = -1"
    by (simp add: fullPool_fields FrameSearch_def)
  with no_victim_no_partial_state [of fullPool 0 cfg0 0 0 7]
  show "\<exists>s'. PageFaultLoadPage cfg0 0 0 0 7 fullPool = Inr (1, s')
           \<and> spaces s' = spaces fullPool \<and> invPageTable s' = invPageTable fullPool
           \<and> memMap s' = memMap fullPool \<and> fileSystem s' = fileSystem fullPool
           \<and> mainMemory s' = mainMemory fullPool"
    by (simp add: fullPool_fields)
  have "FrameSearch (swapMode (fullPool\<lparr>swapMode := 1\<rparr>)) 0
          (invPageTable (fullPool\<lparr>swapMode := 1\<rparr>)) = -1"
    by (simp add: fullPool_fields FrameSearch_def agedScan_none unowned_def)
  with no_victim_no_partial_state [of "fullPool\<lparr>swapMode := 1\<rparr>" 0 cfg0 0 0 7]
  show "\<exists>s'. PageFaultLoadPage cfg0 0 0 0 7 (fullPool\<lparr>swapMode := 1\<rparr>) = Inr (1, s')
           \<and> spaces s' = spaces fullPool \<and> invPageTable s' = invPageTable fullPool
           \<and> memMap s' = memMap fullPool \<and> fileSystem s' = fileSystem fullPool
           \<and> mainMemory s' = mainMemory fullPool"
    by (simp add: fullPool_fields)
qed

subsection \<open>C3: the aged victim\<close>

text \<open>C3 (amended). In the eviction mode 1, when some entry of the inverted page table has a
  positive age counter, \<open>FrameSearch\<close> returns the index of an entry with the maximum
  counter, the lowest such index; when no counter is positive (all are 0, say), it
  returns \<open>-1\<close>.\<close>

theorem FrameSearch_aged_victim:
  "((\<exists>i<32. 0 < time (ipt ! i)) \<longrightarrow>
      (\<exists>k<32. FrameSearch 1 rnd ipt = int k
         \<and> (\<forall>j<32. time (ipt ! j) \<le> time (ipt ! k))
         \<and> (\<forall>j<k. time (ipt ! j) < time (ipt ! k))))
   \<and> ((\<forall>i<32. time (ipt ! i) \<le> 0) \<longrightarrow> FrameSearch 1 rnd ipt = -1)"
proof (intro conjI impI)
  assume "\<exists>i<32. 0 < time (ipt ! i)"
  from agedScan_some [OF this]
  show "\<exists>k<32. FrameSearch 1 rnd ipt = int k
         \<and> (\<forall>j<32. time (ipt ! j) \<le> time (ipt ! k))
         \<and> (\<forall>j<k. time (ipt ! j) < time (ipt ! k))"
    by (auto simp: FrameSearch_def)
next
  assume "\<forall>i<32. time (ipt ! i) \<le> 0"
  then show "FrameSearch 1 rnd ipt = -1"
    by (simp add: FrameSearch_def agedScan_none)
qed

text \<open>An instance of each half of C3.\<close>

theorem FrameSearch_aged_victim_witness:
  "FrameSearch 1 0 (invPageTable evictState) = 0
   \<and> FrameSearch 1 0 (invPageTable freePool) = -1"
proof
  have ex: "\<exists>i<32. 0 < time (invPageTable evictState ! i)"
    by (rule exI [of _ 0]) (simp add: evict_registry_nth)
  with FrameSearch_aged_victim [of "invPageTable evictState" 0]
  obtain k where k: "k < 32" "FrameSearch 1 0 (invPageTable evictState) = int k"
    "\<forall>j<32. time (invPageTable evictState ! j) \<le> time (invPageTable evictState ! k)"
    by blast
  from k(3) have "time (invPageTable evictState ! 0) \<le> time (invPageTable evictState ! k)"
    by simp
  with k(1) have "k = 0" by (simp add: evict_registry_nth split: if_splits)
  with k(2) show "FrameSearch 1 0 (invPageTable evictState) = 0" by simp
  have "\<forall>i<32. time (invPageTable freePool ! i) \<le> 0"
    by (simp add: freePool_def fullPool_def unowned_def)
  with FrameSearch_aged_victim [of "invPageTable freePool" 0]
  show "FrameSearch 1 0 (invPageTable freePool) = -1" by blast
qed

text \<open>C3 as stated fails: with all 32 age counters equal to 0, as the constructor leaves
  them, mode 1 returns \<open>-1\<close> and no frame index.\<close>

theorem aged_scan_of_equal_counters_finds_none:
  "FrameSearch 1 0 (replicate 32 unowned) = -1"
  by (simp add: FrameSearch_def agedScan_none unowned_def)

subsection \<open>C4: the range of the victim index\<close>

text \<open>C4 (amended). The inverted page table has 32 entries whatever the size of the frame
  pool: a victim index that \<open>FrameSearch\<close> produces (with a non-negative value of
  \<open>Random()\<close>) lies in 0..31, which is inside the pool when the pool has at least 32
  frames.\<close>

theorem FrameSearch_within_registry:
  assumes "0 \<le> rnd"
    and "FrameSearch (swapMode s) rnd (invPageTable s) \<noteq> -1"
  shows "0 \<le> FrameSearch (swapMode s) rnd (invPageTable s)
       \<and> FrameSearch (swapMode s) rnd (invPageTable s) < 32
       \<and> (32 \<le> length (memMap s) \<longrightarrow>
             nat (FrameSearch (swapMode s) rnd (invPageTable s)) < length (memMap s))"
  using FrameSearch_range [OF assms(1), of "swapMode s" "invPageTable s"] assms(2)
  by auto

text \<open>An instance of C4 with a pool of 32 frames and \<open>Random() = 37\<close>.\<close>

theorem FrameSearch_within_registry_witness:
  "0 \<le> FrameSearch (swapMode largePool) 37 (invPageTable largePool)
   \<and> FrameSearch (swapMode largePool) 37 (invPageTable largePool) < 32
   \<and> nat (FrameSearch (swapMode largePool) 37 (invPageTable largePool))
        < length (memMap largePool)"
proof -
  have "FrameSearch (swapMode largePool) 37 (invPageTable largePool) = 5"
    by (simp add: largePool_def FrameSearch_def c_rem_def c_div_def)
  then have "FrameSearch (swapMode largePool) 37 (invPageTable largePool) \<noteq> -1" by simp
  from FrameSearch_within_registry [OF _ this]
  show ?thesis by (simp add: largePool_def)
qed

text \<open>C4 as stated fails: with a pool of two frames, mode 2 and \<open>Random() = 5\<close> the
  victim is frame 5, outside the pool, and the resolver reads physical memory out of
  bounds.\<close>

theorem random_victim_outside_small_pool:
  "FrameSearch (swapMode (fullPool\<lparr>swapMode := 2\<rparr>)) 5
      (invPageTable (fullPool\<lparr>swapMode := 2\<rparr>)) = 5
   \<and> length (memMap (fullPool\<lparr>swapMode := 2\<rparr>)) = 2
   \<and> PageFaultLoadPage cfg0 5 0 0 7 (fullPool\<lparr>swapMode := 2\<rparr>) = Inl OutOfBounds"
proof -
  have fs: "FrameSearch 2 5 (replicate 32 unowned) = 5"
    by (simp add: FrameSearch_def c_rem_def c_div_def)
  have ev: "evictFrame cfg0 5 s = Inl OutOfBounds" if "length (mainMemory s) = 4" for s
    using that by (simp add: evictFrame_def Let_def cfg0_def)
  have len: "length (mainMemory fullPool) = 4" by (simp add: fullPool_def)
  have "PageFaultLoadPage cfg0 5 0 0 7 (fullPool\<lparr>swapMode := 2\<rparr>) = Inl OutOfBounds"
    using fs
    by (simp add: PageFaultLoadPage_def sem_P_def BitMap_Find_def acquireFrame_def
        fullPool_fields Let_def ev len)
  with fs show ?thesis by (simp add: fullPool_fields)
qed

subsection \<open>C5: the state after a successful fault resolution\<close>



subsection \<open>C6: eviction writes the victim back and reuses its frame\<close>

text \<open>C6. From a state with the semaphore free and no free frame, where \<open>FrameSearch\<close>
  returns the victim \<open>frame\<close> and the inverted page table entry of the victim names an
  existing swap file, thread, page table and page (and the faulting page lies inside
  its own page table and swap file), \<open>PageFaultLoadPage\<close> returns 0 and: the
  \<open>PageSize\<close> bytes the victim frame held are in the swap file of the victim's owner at
  the offset of the victim's virtual page, whatever the dirty flag; the entry of the
  victim's page in its owner's page table is not valid (unless it is the entry the
  fault is resolved for); the faulting page is mapped to the frame.\<close>

theorem eviction_writes_back_and_reuses_frame:
  assumes ps: "0 < PageSize cfg"
    and sem: "0 < semValue s"
    and len: "length (invPageTable s) = 32"
    and full: "\<forall>b\<in>set (memMap s). b"
    and fr: "frame = FrameSearch (swapMode s) rnd (invPageTable s)"
    and victim: "0 \<le> frame" "frame < 32"
    and mem: "frame * PageSize cfg + PageSize cfg \<le> int (length (mainMemory s))"
    and pg: "pg = c_div addr (PageSize cfg)"
    and vp: "vpage = page (invPageTable s ! nat frame)"
    and vf: "vfile = swapName (process (invPageTable s ! nat frame))"
    and old: "fileSystem s vfile = Some old"
    and inside: "vpage * PageSize cfg + PageSize cfg \<le> int (length old)"
    and owner: "processThread (invPageTable s ! nat frame) = Some t"
       "spaces s t = Some spt" "pageTable spt = Some ptt"
       "0 \<le> vpage" "vpage < int (length ptt)"
    and swap: "fileSystem s (swapName tid) = Some f"
       "pg * PageSize cfg + PageSize cfg \<le> int (length f)"
    and self: "spaces s self = Some sp" "pageTable sp = Some pt"
       "0 \<le> pg" "pg < int (length pt)"
  shows "\<exists>s' new spv ptv sp' pt'.
       PageFaultLoadPage cfg rnd self addr tid s = Inr (0, s')
     \<and> fileSystem s' vfile = Some new \<and> length new = length old
     \<and> take (nat (PageSize cfg)) (drop (nat (vpage * PageSize cfg)) new)
         = take (nat (PageSize cfg)) (drop (nat (frame * PageSize cfg)) (mainMemory s))
     \<and> length (take (nat (PageSize cfg)) (drop (nat (frame * PageSize cfg)) (mainMemory s)))
         = nat (PageSize cfg)
     \<and> spaces s' t = Some spv \<and> pageTable spv = Some ptv \<and> nat vpage < length ptv
     \<and> (\<not> (t = self \<and> vpage = pg) \<longrightarrow> \<not> valid (ptv ! nat vpage))
     \<and> spaces s' self = Some sp' \<and> pageTable sp' = Some pt' \<and> nat pg < length pt'
     \<and> valid (pt' ! nat pg) \<and> physicalPage (pt' ! nat pg) = Some frame
     \<and> process (invPageTable s' ! nat frame) = tid
     \<and> page (invPageTable s' ! nat frame) = pg"
proof -
  from eviction_succeeds [OF ps sem full fr victim mem pg vp vf old owner swap self]
  obtain s' where ok: "PageFaultLoadPage cfg rnd self addr tid s = Inr (0, s')" ..
  from eviction_effects [OF ok ps full fr pg vp vf old inside len]
  obtain new t' spv ptv sp' pt' where e:
    "fileSystem s' vfile = Some new" "length new = length old"
    "take (nat (PageSize cfg)) (drop (nat (vpage * PageSize cfg)) new)
         = take (nat (PageSize cfg)) (drop (nat (frame * PageSize cfg)) (mainMemory s))"
    "length (take (nat (PageSize cfg)) (drop (nat (frame * PageSize cfg)) (mainMemory s)))
         = nat (PageSize cfg)"
    "processThread (invPageTable s ! nat frame) = Some t'"
    "spaces s' t' = Some spv" "pageTable spv = Some ptv" "nat vpage < length ptv"
    "\<not> (t' = self \<and> vpage = pg) \<longrightarrow> \<not> valid (ptv ! nat vpage)"
    "spaces s' self = Some sp'" "pageTable sp' = Some pt'" "nat pg < length pt'"
    "valid (pt' ! nat pg)" "physicalPage (pt' ! nat pg) = Some frame"
    "process (invPageTable s' ! nat frame) = tid"
    "page (invPageTable s' ! nat frame) = pg"
    by blast
  from e(5) owner(1) have tt: "t' = t" by simp
  show ?thesis
    apply (rule exI [of _ s'])
    apply (rule exI [of _ new])
    apply (rule exI [of _ spv])
    apply (rule exI [of _ ptv])
    apply (rule exI [of _ sp'])
    apply (rule exI [of _ pt'])
    using ok e tt by simp
qed

text \<open>An instance of C6: process 8 faults with both frames held by process 7; frame 0 is
  the victim.\<close>

theorem eviction_writes_back_and_reuses_frame_witness:
  "PageFaultLoadPage cfg0 0 1 0 8 evictState = Inr (0, afterEviction)
   \<and> (\<exists>new spv ptv sp' pt'.
       fileSystem afterEviction ''7.swap'' = Some new \<and> length new = 4
     \<and> take 2 (drop 2 new) = take 2 (mainMemory evictState)
     \<and> spaces afterEviction 0 = Some spv \<and> pageTable spv = Some ptv \<and> 1 < length ptv
     \<and> \<not> valid (ptv ! 1)
     \<and> spaces afterEviction 1 = Some sp' \<and> pageTable sp' = Some pt' \<and> 0 < length pt'
     \<and> valid (pt' ! 0) \<and> physicalPage (pt' ! 0) = Some 0
     \<and> process (invPageTable afterEviction ! 0) = 8
     \<and> page (invPageTable afterEviction ! 0) = 0)"
proof -
  have ps: "0 < PageSize cfg0" by (simp add: cfg0_PageSize)
  have sem: "0 < semValue evictState" by (simp add: evictState_fields)
  have full: "\<forall>b\<in>set (memMap evictState). b" by (simp add: evictState_fields)
  have fr: "0 = FrameSearch (swapMode evictState) 0 (invPageTable evictState)"
    by (simp add: evictState_fields FrameSearch_evictState)
  have victim: "(0::int) \<le> 0" "(0::int) < 32" by simp_all
  have mem: "0 * PageSize cfg0 + PageSize cfg0 \<le> int (length (mainMemory evictState))"
    by (simp add: cfg0_PageSize evictState_fields)
  have pg: "0 = c_div 0 (PageSize cfg0)" by (simp add: c_div_def)
  have vp: "1 = page (invPageTable evictState ! nat 0)" by (simp add: evictState_fields)
  have vf: "''7.swap'' = swapName (process (invPageTable evictState ! nat 0))"
    by (simp add: evictState_fields swapName_7)
  have old: "fileSystem evictState ''7.swap'' = Some [5, 6, 7, 8]"
    by (simp add: evictState_fields)
  have inside: "1 * PageSize cfg0 + PageSize cfg0 \<le> int (length [5, 6, 7, 8 :: byte])"
    by (simp add: cfg0_PageSize)
  have owner: "processThread (invPageTable evictState ! nat 0) = Some 0"
    "spaces evictState 0 = Some residentPages"
    "pageTable residentPages = Some
        [\<lparr>virtualPage = 0, physicalPage = Some 1, valid = True, use = False,
          dirty = False, readOnly = False\<rparr>,
         \<lparr>virtualPage = 1, physicalPage = Some 0, valid = True, use = False,
          dirty = False, readOnly = False\<rparr>]"
    "(0::int) \<le> 1"
    "1 < int (length [\<lparr>virtualPage = 0, physicalPage = Some 1, valid = True, use = False,
          dirty = False, readOnly = False\<rparr>,
         \<lparr>virtualPage = 1, physicalPage = Some 0, valid = True, use = False,
          dirty = False, readOnly = False\<rparr>])"
    by (simp_all add: evictState_fields residentPages_fields)
  have swap: "fileSystem evictState (swapName 8) = Some [1, 2]"
    "0 * PageSize cfg0 + PageSize cfg0 \<le> int (length [1, 2 :: byte])"
    by (simp_all add: evictState_fields swapName_8 cfg0_PageSize)
  have self: "spaces evictState 1 = Some onePage" "pageTable onePage = Some [freshEntry 0]"
    "(0::int) \<le> 0" "0 < int (length [freshEntry 0])"
    by (simp_all add: evictState_fields onePage_def)
  from eviction_writes_back_and_reuses_frame
    [OF ps sem evictState_fields(9) full fr victim mem pg vp vf old inside owner swap self]
  obtain s' new spv ptv sp' pt' where r:
    "PageFaultLoadPage cfg0 0 1 0 8 evictState = Inr (0, s')"
    "fileSystem s' ''7.swap'' = Some new" "length new = length [5, 6, 7, 8 :: byte]"
    "take (nat (PageSize cfg0)) (drop (nat (1 * PageSize cfg0)) new)
         = take (nat (PageSize cfg0)) (drop (nat (0 * PageSize cfg0)) (mainMemory evictState))"
    "spaces s' 0 = Some spv" "pageTable spv = Some ptv" "nat 1 < length ptv"
    "\<not> (0 = (1::nat) \<and> (1::int) = 0) \<longrightarrow> \<not> valid (ptv ! nat 1)"
    "spaces s' 1 = Some sp'" "pageTable sp' = Some pt'" "nat 0 < length pt'"
    "valid (pt' ! nat 0)" "physicalPage (pt' ! nat 0) = Some 0"
    "process (invPageTable s' ! nat 0) = 8"
    "page (invPageTable s' ! nat 0) = 0"
    by blast
  from r(1) run_evict have s': "s' = afterEviction" by simp
  have "fileSystem afterEviction ''7.swap'' = Some new \<and> length new = 4
     \<and> take 2 (drop 2 new) = take 2 (mainMemory evictState)
     \<and> spaces afterEviction 0 = Some spv \<and> pageTable spv = Some ptv \<and> 1 < length ptv
     \<and> \<not> valid (ptv ! 1)
     \<and> spaces afterEviction 1 = Some sp' \<and> pageTable sp' = Some pt' \<and> 0 < length pt'
     \<and> valid (pt' ! 0) \<and> physicalPage (pt' ! 0) = Some 0
     \<and> process (invPageTable afterEviction ! 0) = 8
     \<and> page (invPageTable afterEviction ! 0) = 0"
    using r(2-15) by (simp add: s' cfg0_PageSize)
  with run_evict show ?thesis by blast
qed

subsection \<open>C7: teardown releases the frames of the valid entries\<close>

text \<open>C7. The destructor of the address space of a thread, whose valid page table
  entries name frames of the pool (below 32): the loop ends with every entry
  \<open>valid = false\<close> and \<open>dirty = false\<close>, and the page table is then deleted
  (\<open>pageTable = NULL\<close>); exactly the frames \<open>F\<close> of the valid entries are cleared in
  \<open>memMap\<close> and their entries of the inverted page table are reset to \<open>time = 0\<close>,
  \<open>process = -1\<close>, \<open>page = -1\<close>, \<open>processThread = NULL\<close>; every other bit, every other
  entry and every other address space is unchanged; \<open>F\<close> has as many frames as there
  are valid entries when these name distinct frames.\<close>

theorem teardown_releases_frames:
  assumes sp: "spaces s self = Some sp"
    and pt: "pageTable sp = Some pt" and len: "length pt = numPages sp"
    and reg: "length (invPageTable s) = 32"
    and frames: "\<forall>e\<in>set pt. valid e \<longrightarrow>
             (\<exists>f. physicalPage e = Some (int f) \<and> f < 32 \<and> f < length (memMap s))"
    and F: "F = {f. \<exists>e\<in>set pt. valid e \<and> physicalPage e = Some (int f)}"
  shows "\<exists>s1 s'.
       releaseLoop self [0..<numPages sp] s = Inr s1
     \<and> spaces s1 self
         = Some (sp\<lparr>pageTable := Some (map (\<lambda>e. e\<lparr>valid := False, dirty := False\<rparr>) pt)\<rparr>)
     \<and> AddrSpace_destroy self s = Inr s'
     \<and> spaces s' self = Some (sp\<lparr>pageTable := None\<rparr>)
     \<and> (\<forall>t. t \<noteq> self \<longrightarrow> spaces s' t = spaces s t)
     \<and> length (memMap s') = length (memMap s)
     \<and> (\<forall>f<length (memMap s). memMap s' ! f = (if f \<in> F then False else memMap s ! f))
     \<and> length (invPageTable s') = 32
     \<and> (\<forall>f<32. invPageTable s' ! f =
           (if f \<in> F then \<lparr>time = 0, process = -1, processThread = None, page = -1\<rparr>
            else invPageTable s ! f))
     \<and> (distinct (map physicalPage (filter valid pt)) \<longrightarrow> card F = length (filter valid pt))
     \<and> mainMemory s' = mainMemory s \<and> fileSystem s' = fileSystem s
     \<and> semValue s' = semValue s"
proof -
  let ?clr = "\<lambda>e. e\<lparr>valid := False, dirty := False\<rparr>"
  let ?un = "\<lparr>time = 0, process = -1, processThread = None, page = -1\<rparr> :: InvEntry"
  from releaseLoop_prefix [OF sp pt frames reg, of "length pt"]
  have "\<exists>m r. releaseLoop self [0..<length pt] s
             = Inr (s\<lparr>memMap := m, invPageTable := r,
                      spaces := (spaces s)(self \<mapsto> sp\<lparr>pageTable := Some (map ?clr pt)\<rparr>)\<rparr>)
         \<and> length m = length (memMap s) \<and> length r = 32
         \<and> (\<forall>f<length (memMap s). m ! f =
               (if \<exists>e\<in>set pt. valid e \<and> physicalPage e = Some (int f)
                then False else memMap s ! f))
         \<and> (\<forall>f<32. r ! f =
               (if \<exists>e\<in>set pt. valid e \<and> physicalPage e = Some (int f)
                then ?un else invPageTable s ! f))"
    by simp
  then obtain m r where all:
    "releaseLoop self [0..<length pt] s
             = Inr (s\<lparr>memMap := m, invPageTable := r,
                      spaces := (spaces s)(self \<mapsto> sp\<lparr>pageTable := Some (map ?clr pt)\<rparr>)\<rparr>)
         \<and> length m = length (memMap s) \<and> length r = 32
         \<and> (\<forall>f<length (memMap s). m ! f =
               (if \<exists>e\<in>set pt. valid e \<and> physicalPage e = Some (int f)
                then False else memMap s ! f))
         \<and> (\<forall>f<32. r ! f =
               (if \<exists>e\<in>set pt. valid e \<and> physicalPage e = Some (int f)
                then ?un else invPageTable s ! f))"
    by (elim exE)
  note run = all [THEN conjunct1]
  note lm = all [THEN conjunct2, THEN conjunct1]
  note lr = all [THEN conjunct2, THEN conjunct2, THEN conjunct1]
  note mm = all [THEN conjunct2, THEN conjunct2, THEN conjunct2, THEN conjunct1]
  note rr = all [THEN conjunct2, THEN conjunct2, THEN conjunct2, THEN conjunct2]
  define s1 where "s1 = s\<lparr>memMap := m, invPageTable := r,
                      spaces := (spaces s)(self \<mapsto> sp\<lparr>pageTable := Some (map ?clr pt)\<rparr>)\<rparr>"
  define s' where "s' = s1\<lparr>spaces := (spaces s1)(self \<mapsto> sp\<lparr>pageTable := None\<rparr>)\<rparr>"
  have 1: "releaseLoop self [0..<numPages sp] s = Inr s1"
    using run len by (simp add: s1_def)
  have 2: "spaces s1 self = Some (sp\<lparr>pageTable := Some (map ?clr pt)\<rparr>)"
    by (simp add: s1_def)
  have 3: "AddrSpace_destroy self s = Inr s'"
    by (simp add: AddrSpace_destroy_def sp pt 1 2 s'_def)
  have 4: "spaces s' self = Some (sp\<lparr>pageTable := None\<rparr>)" by (simp add: s'_def)
  have 5: "\<forall>t. t \<noteq> self \<longrightarrow> spaces s' t = spaces s t" by (simp add: s'_def s1_def)
  have 6: "memMap s' = m" "invPageTable s' = r" "mainMemory s' = mainMemory s"
    "fileSystem s' = fileSystem s" "semValue s' = semValue s"
    by (simp_all add: s'_def s1_def)
  have 7: "\<forall>f<length (memMap s). memMap s' ! f = (if f \<in> F then False else memMap s ! f)"
    using mm by (simp add: F 6)
  have 8: "\<forall>f<32. invPageTable s' ! f = (if f \<in> F then ?un else invPageTable s ! f)"
    using rr by (simp add: F 6)
  have 9: "distinct (map physicalPage (filter valid pt)) \<longrightarrow> card F = length (filter valid pt)"
  proof
    assume d: "distinct (map physicalPage (filter valid pt))"
    from frames have "\<forall>e\<in>set pt. valid e \<longrightarrow> (\<exists>f::nat. physicalPage e = Some (int f))"
      by blast
    from card_frames [OF d this] show "card F = length (filter valid pt)" by (simp add: F)
  qed
  show ?thesis
    apply (rule exI [of _ s1])
    apply (rule exI [of _ s'])
    using 1 2 3 4 5 6 7 8 9 lm lr by simp
qed

text \<open>An instance of C7: the address space of process 7 (thread 0) with both its pages
  resident, in frames 1 and 0.\<close>

theorem teardown_releases_frames_witness:
  "\<exists>s1 s'.
       releaseLoop 0 [0..<2] evictState = Inr s1
     \<and> spaces s1 0 = Some (residentPages\<lparr>pageTable := Some
          [\<lparr>virtualPage = 0, physicalPage = Some 1, valid = False, use = False,
            dirty = False, readOnly = False\<rparr>,
           \<lparr>virtualPage = 1, physicalPage = Some 0, valid = False, use = False,
            dirty = False, readOnly = False\<rparr>]\<rparr>)
     \<and> AddrSpace_destroy 0 evictState = Inr s'
     \<and> spaces s' 0 = Some (residentPages\<lparr>pageTable := None\<rparr>)
     \<and> spaces s' 1 = spaces evictState 1
     \<and> length (memMap s') = 2 \<and> memMap s' ! 0 = False \<and> memMap s' ! 1 = False
     \<and> invPageTable s' ! 0 = \<lparr>time = 0, process = -1, processThread = None, page = -1\<rparr>
     \<and> invPageTable s' ! 1 = \<lparr>time = 0, process = -1, processThread = None, page = -1\<rparr>
     \<and> invPageTable s' ! 2 = invPageTable evictState ! 2
     \<and> card {0, 1 :: nat} = 2"
proof -
  let ?pt = "[\<lparr>virtualPage = 0, physicalPage = Some 1, valid = True, use = False,
          dirty = False, readOnly = False\<rparr>,
         \<lparr>virtualPage = 1, physicalPage = Some 0, valid = True, use = False,
          dirty = False, readOnly = False\<rparr>]"
  let ?un = "\<lparr>time = 0, process = -1, processThread = None, page = -1\<rparr> :: InvEntry"
  have sp: "spaces evictState 0 = Some residentPages" by (simp add: evictState_fields)
  have len: "length ?pt = numPages residentPages" by (simp add: residentPages_fields)
  have frames: "\<forall>e\<in>set ?pt. valid e \<longrightarrow>
             (\<exists>f. physicalPage e = Some (int f) \<and> f < 32 \<and> f < length (memMap evictState))"
  proof (intro ballI impI)
    fix e assume "e \<in> set ?pt" "valid e"
    then consider "physicalPage e = Some (int 1)" | "physicalPage e = Some (int 0)" by auto
    then show "\<exists>f. physicalPage e = Some (int f) \<and> f < 32 \<and> f < length (memMap evictState)"
    proof cases
      case 1
      then show ?thesis by (intro exI [of _ 1]) (simp add: evictState_fields)
    next
      case 2
      then show ?thesis by (intro exI [of _ 0]) (simp add: evictState_fields)
    qed
  qed
  have F: "{0, 1 :: nat} = {f. \<exists>e\<in>set ?pt. valid e \<and> physicalPage e = Some (int f)}"
    by auto
  have d: "distinct (map physicalPage (filter valid ?pt))" by simp
  from teardown_releases_frames
    [OF sp residentPages_fields(1) len evictState_fields(9) frames F]
  obtain s1 s' where c:
    "releaseLoop 0 [0..<numPages residentPages] evictState = Inr s1"
    "spaces s1 0
         = Some (residentPages\<lparr>pageTable := Some (map (\<lambda>e. e\<lparr>valid := False, dirty := False\<rparr>) ?pt)\<rparr>)"
    "AddrSpace_destroy 0 evictState = Inr s'"
    "spaces s' 0 = Some (residentPages\<lparr>pageTable := None\<rparr>)"
    "\<forall>t. t \<noteq> 0 \<longrightarrow> spaces s' t = spaces evictState t"
    "length (memMap s') = length (memMap evictState)"
    "\<forall>f<length (memMap evictState). memMap s' ! f
        = (if f \<in> {0, 1 :: nat} then False else memMap evictState ! f)"
    "\<forall>f<32. invPageTable s' ! f
        = (if f \<in> {0, 1 :: nat} then ?un else invPageTable evictState ! f)"
    "distinct (map physicalPage (filter valid ?pt)) \<longrightarrow> card {0, 1 :: nat} = length (filter valid ?pt)"
    by blast
  from c(5) have o: "spaces s' 1 = spaces evictState 1" by simp
  from c(7) have m: "memMap s' ! 0 = False" "memMap s' ! 1 = False"
    by (simp_all add: evictState_fields)
  from c(8) have r: "invPageTable s' ! 0 = ?un" "invPageTable s' ! 1 = ?un"
    "invPageTable s' ! 2 = invPageTable evictState ! 2" by simp_all
  from c(9) d have k: "card {0, 1 :: nat} = 2" by simp
  from c(1,2,3,4,6) o m r k show ?thesis
    by (intro exI [of _ s1] exI [of _ s']) (simp add: residentPages_fields evictState_fields)
qed

subsection \<open>C8: construction of the page table\<close>

text \<open>C8. For a header that passes the magic number check, with non-negative segment sizes
  whose sum with the stack size fits an \<open>int\<close>, the constructor gives
  \<open>numPages = ceil((codeSize + initDataSize + uninitDataSize + UserStackSize) / PageSize)\<close>
  and a page table of that many entries, entry \<open>i\<close> with \<open>virtualPage = i\<close> and
  \<open>valid\<close>, \<open>dirty\<close>, \<open>readOnly\<close> false; physical memory and the frame bitmap are
  untouched. (The first construction needs the semaphore to be free.)\<close>

theorem construction_allocates_page_table:
  assumes ps: "0 < PageSize cfg"
    and hdr: "readHeader cfg exe = Inr noffH"
    and sem: "invPageTableNotYetLoaded s \<longrightarrow> 0 < semValue s"
    and sizes: "0 \<le> size' (code noffH)" "0 \<le> size' (initData noffH)"
       "0 \<le> size' (uninitData noffH)" "0 \<le> UserStackSize cfg"
    and asz: "asz = size' (code noffH) + size' (initData noffH) + size' (uninitData noffH)
                   + UserStackSize cfg"
    and fits: "asz < 2 ^ 31"
  shows "\<exists>sp s' pt.
       AddrSpace_create cfg exe s = Inr (sp, s')
     \<and> int (numPages sp) = \<lceil>real_of_int asz / real_of_int (PageSize cfg)\<rceil>
     \<and> pageTable sp = Some pt \<and> length pt = numPages sp
     \<and> (\<forall>i<numPages sp. virtualPage (pt ! i) = int i \<and> \<not> valid (pt ! i)
            \<and> \<not> dirty (pt ! i) \<and> \<not> readOnly (pt ! i))
     \<and> mainMemory s' = mainMemory s \<and> memMap s' = memMap s"
proof -
  from sizes asz have t0: "0 \<le> asz" by simp
  from loadRegistryOnce_ok [OF sem] obtain s' where
    s': "loadRegistryOnce s = Inr s'" "mainMemory s' = mainMemory s" "memMap s' = memMap s"
    by blast
  let ?n = "divRoundUp (nat asz) (nat (PageSize cfg))"
  have sz: "addressSpaceSize cfg noffH = nat asz"
    using t0 fits asz by (rule addressSpaceSize_total)
  have run: "AddrSpace_create cfg exe s
               = Inr (\<lparr>pageTable = Some (map freshEntry [0..<?n]), numPages = ?n\<rparr>, s')"
    by (simp add: AddrSpace_create_def s' hdr sz Let_def)
  have ce: "int ?n = \<lceil>real_of_int asz / real_of_int (PageSize cfg)\<rceil>"
    using t0 ps by (rule divRoundUp_ceiling)
  have ent: "\<forall>i<?n. virtualPage (map freshEntry [0..<?n] ! i) = int i
               \<and> \<not> valid (map freshEntry [0..<?n] ! i)
               \<and> \<not> dirty (map freshEntry [0..<?n] ! i)
               \<and> \<not> readOnly (map freshEntry [0..<?n] ! i)"
    by (simp add: freshEntry_def)
  show ?thesis
    apply (rule exI [of _ "\<lparr>pageTable = Some (map freshEntry [0..<?n]), numPages = ?n\<rparr>"])
    apply (rule exI [of _ s'])
    apply (rule exI [of _ "map freshEntry [0..<?n]"])
    using run ce ent s' by simp
qed

text \<open>An instance of C8: nine bytes of address space in pages of two bytes give five
  pages.\<close>

theorem construction_allocates_page_table_witness:
  "\<exists>sp s' pt.
       AddrSpace_create cfg0 exe0 freePool = Inr (sp, s')
     \<and> numPages sp = 5
     \<and> pageTable sp = Some pt \<and> length pt = 5
     \<and> virtualPage (pt ! 4) = 4 \<and> \<not> valid (pt ! 4) \<and> \<not> dirty (pt ! 4) \<and> \<not> readOnly (pt ! 4)
     \<and> mainMemory s' = mainMemory freePool \<and> memMap s' = memMap freePool"
proof -
  have ps: "0 < PageSize cfg0" by (simp add: cfg0_PageSize)
  have sem: "invPageTableNotYetLoaded freePool \<longrightarrow> 0 < semValue freePool"
    by (simp add: freePool_fields)
  have asz: "9 = size' (code noff0) + size' (initData noff0) + size' (uninitData noff0)
                   + UserStackSize cfg0"
    by (simp add: noff0_fields)
  from construction_allocates_page_table [OF ps readHeader_exe0 sem _ _ _ _ asz]
  obtain sp s' pt where c:
    "AddrSpace_create cfg0 exe0 freePool = Inr (sp, s')"
    "int (numPages sp) = \<lceil>real_of_int 9 / real_of_int (PageSize cfg0)\<rceil>"
    "pageTable sp = Some pt" "length pt = numPages sp"
    "\<forall>i<numPages sp. virtualPage (pt ! i) = int i \<and> \<not> valid (pt ! i)
            \<and> \<not> dirty (pt ! i) \<and> \<not> readOnly (pt ! i)"
    "mainMemory s' = mainMemory freePool" "memMap s' = memMap freePool"
    by (auto simp: noff0_fields)
  from c(2) have n: "numPages sp = 5" by (simp add: cfg0_PageSize)
  with c(5) have "virtualPage (pt ! 4) = 4 \<and> \<not> valid (pt ! 4) \<and> \<not> dirty (pt ! 4)
      \<and> \<not> readOnly (pt ! 4)" by simp
  with c n show ?thesis by (intro exI [of _ sp] exI [of _ s'] exI [of _ pt]) simp
qed

subsection \<open>C9: the contents of the swap file\<close>

text \<open>C9. For a header that passes the magic number check, whose code and initialised data
  segments lie inside the executable file and inside the address space and do not
  overlap, \<open>GenerateSWAP(executable, ID)\<close> leaves a file named \<open><ID>.swap\<close>: the name is a
  minus sign when \<open>ID\<close> is negative, then a non-empty string of decimal digits whose
  value is the magnitude of \<open>ID\<close>, with no leading zero unless \<open>ID\<close> is 0, then
  \<open>.swap\<close>. The file has \<open>numPages * PageSize\<close> bytes: the bytes of the code segment at
  its virtual address, those of the initialised data at its virtual address, zero
  everywhere else. Other files and physical memory are unchanged.\<close>

theorem GenerateSWAP_contents:
  assumes ps: "0 < PageSize cfg" "PageSize cfg < 2 ^ 31"
    and hdr: "readHeader cfg exe = Inr noffH"
    and c: "c = code noffH" and d: "d = initData noffH"
    and sizes: "0 \<le> size' c" "0 \<le> size' d" "0 \<le> size' (uninitData noffH)"
       "0 \<le> UserStackSize cfg"
    and asz: "asz = size' c + size' d + size' (uninitData noffH) + UserStackSize cfg"
    and fits: "asz < 2 ^ 31"
    and n: "n = divRoundUp (nat asz) (nat (PageSize cfg))"
    and cfile: "0 \<le> inFileAddr c" "inFileAddr c + size' c \<le> int (length (contents exe))"
    and cva: "0 \<le> virtualAddr c" "virtualAddr c + size' c \<le> int n * PageSize cfg"
    and dfile: "0 \<le> inFileAddr d" "inFileAddr d + size' d \<le> int (length (contents exe))"
    and dva: "0 \<le> virtualAddr d" "virtualAddr d + size' d \<le> int n * PageSize cfg"
    and disj: "virtualAddr c + size' c \<le> virtualAddr d \<or> virtualAddr d + size' d \<le> virtualAddr c"
  shows "(\<exists>ds. swapName ID = (if ID < 0 then ''-'' else []) @ ds @ ''.swap''
            \<and> ds \<noteq> [] \<and> set ds \<subseteq> set ''0123456789''
            \<and> decimalValue ds = nat \<bar>ID\<bar>
            \<and> (hd ds = CHR ''0'' \<longrightarrow> ID = 0))
     \<and> (\<exists>s' data.
       GenerateSWAP cfg exe ID sp s = Inr (sp\<lparr>numPages := n\<rparr>, s')
     \<and> fileSystem s' (swapName ID) = Some data
     \<and> int (length data) = int n * PageSize cfg
     \<and> (\<forall>j. 0 \<le> j \<and> j < size' c \<longrightarrow>
            data ! nat (virtualAddr c + j) = contents exe ! nat (inFileAddr c + j))
     \<and> (\<forall>j. 0 \<le> j \<and> j < size' d \<longrightarrow>
            data ! nat (virtualAddr d + j) = contents exe ! nat (inFileAddr d + j))
     \<and> (\<forall>k. 0 \<le> k \<and> k < int (length data)
            \<and> \<not> (virtualAddr c \<le> k \<and> k < virtualAddr c + size' c)
            \<and> \<not> (virtualAddr d \<le> k \<and> k < virtualAddr d + size' d) \<longrightarrow> data ! nat k = 0)
     \<and> (\<forall>name. name \<noteq> swapName ID \<longrightarrow> fileSystem s' name = fileSystem s name)
     \<and> mainMemory s' = mainMemory s)"
  using swapName_decimal [of ID]
    GenerateSWAP_file [OF ps hdr c d sizes asz fits n cfile cva dfile dva disj, of ID sp s]
  by (rule conjI)

text \<open>An instance of C9: the executable \<open>exe0\<close> and the processes 7 and 120.\<close>

theorem GenerateSWAP_contents_witness:
  "swapName 7 = ''7.swap'' \<and> swapName 120 = ''120.swap''
   \<and> (\<exists>ds. swapName 7 = ds @ ''.swap'' \<and> ds \<noteq> [] \<and> set ds \<subseteq> set ''0123456789''
            \<and> decimalValue ds = 7 \<and> hd ds \<noteq> CHR ''0'')
   \<and> (\<exists>ds. swapName 120 = ds @ ''.swap'' \<and> ds \<noteq> [] \<and> set ds \<subseteq> set ''0123456789''
            \<and> decimalValue ds = 120 \<and> hd ds \<noteq> CHR ''0'')
   \<and> (\<exists>s' data.
       GenerateSWAP cfg0 exe0 7 twoPages freePool = Inr (twoPages\<lparr>numPages := 5\<rparr>, s')
     \<and> fileSystem s' ''7.swap'' = Some data \<and> length data = 10
     \<and> data ! 0 = 11 \<and> data ! 2 = 13 \<and> data ! 3 = 21 \<and> data ! 4 = 22
     \<and> data ! 5 = 0 \<and> data ! 9 = 0)"
proof -
  let ?c = "\<lparr>virtualAddr = 0, inFileAddr = 40, size' = 3\<rparr> :: Segment"
  let ?d = "\<lparr>virtualAddr = 3, inFileAddr = 43, size' = 2\<rparr> :: Segment"
  have ps: "0 < PageSize cfg0" "PageSize cfg0 < 2 ^ 31" by (simp_all add: cfg0_PageSize)
  have c: "?c = code noff0" and d: "?d = initData noff0" by (simp_all add: noff0_fields)
  have sizes: "0 \<le> size' ?c" "0 \<le> size' ?d" "0 \<le> size' (uninitData noff0)"
    "0 \<le> UserStackSize cfg0" by (simp_all add: noff0_fields)
  have asz: "9 = size' ?c + size' ?d + size' (uninitData noff0) + UserStackSize cfg0"
    by (simp add: noff0_fields)
  have fits: "(9::int) < 2 ^ 31" by simp
  have n: "5 = divRoundUp (nat 9) (nat (PageSize cfg0))" by (simp add: divRoundUp_9_2)
  have len: "length (contents exe0) = 45" by (simp add: exe0_def)
  have cfile: "0 \<le> inFileAddr ?c" "inFileAddr ?c + size' ?c \<le> int (length (contents exe0))"
    and cva: "0 \<le> virtualAddr ?c" "virtualAddr ?c + size' ?c \<le> int 5 * PageSize cfg0"
    and dfile: "0 \<le> inFileAddr ?d" "inFileAddr ?d + size' ?d \<le> int (length (contents exe0))"
    and dva: "0 \<le> virtualAddr ?d" "virtualAddr ?d + size' ?d \<le> int 5 * PageSize cfg0"
    and disj: "virtualAddr ?c + size' ?c \<le> virtualAddr ?d
               \<or> virtualAddr ?d + size' ?d \<le> virtualAddr ?c"
    by (simp_all add: len cfg0_PageSize)
  note T = GenerateSWAP_contents
    [OF ps readHeader_exe0 c d sizes asz fits n cfile cva dfile dva disj]
  from T [of 7 twoPages freePool]
  have n7: "\<exists>ds. swapName 7 = ds @ ''.swap'' \<and> ds \<noteq> [] \<and> set ds \<subseteq> set ''0123456789''
            \<and> decimalValue ds = 7 \<and> hd ds \<noteq> CHR ''0''"
    by auto
  from T [of 120 twoPages freePool]
  have n120: "\<exists>ds. swapName 120 = ds @ ''.swap'' \<and> ds \<noteq> [] \<and> set ds \<subseteq> set ''0123456789''
            \<and> decimalValue ds = 120 \<and> hd ds \<noteq> CHR ''0''"
    by auto
  from T [of 7 twoPages freePool]
  obtain s' data where r:
    "GenerateSWAP cfg0 exe0 7 twoPages freePool = Inr (twoPages\<lparr>numPages := 5\<rparr>, s')"
    "fileSystem s' (swapName 7) = Some data"
    "int (length data) = int 5 * PageSize cfg0"
    "\<forall>j. 0 \<le> j \<and> j < size' ?c \<longrightarrow>
            data ! nat (virtualAddr ?c + j) = contents exe0 ! nat (inFileAddr ?c + j)"
    "\<forall>j. 0 \<le> j \<and> j < size' ?d \<longrightarrow>
            data ! nat (virtualAddr ?d + j) = contents exe0 ! nat (inFileAddr ?d + j)"
    "\<forall>k. 0 \<le> k \<and> k < int (length data)
            \<and> \<not> (virtualAddr ?c \<le> k \<and> k < virtualAddr ?c + size' ?c)
            \<and> \<not> (virtualAddr ?d \<le> k \<and> k < virtualAddr ?d + size' ?d) \<longrightarrow> data ! nat k = 0"
    by blast
  from r(3) have l: "length data = 10" by (simp add: cfg0_PageSize)
  from r(4) [rule_format, of 0] have b0: "data ! 0 = 11" by (simp add: exe0_def nth_append)
  from r(4) [rule_format, of 2] have b2: "data ! 2 = 13" by (simp add: exe0_def nth_append)
  from r(5) [rule_format, of 0] have b3: "data ! 3 = 21" by (simp add: exe0_def nth_append)
  from r(5) [rule_format, of 1] have b4: "data ! 4 = 22" by (simp add: exe0_def nth_append)
  from r(6) [rule_format, of 5] l have b5: "data ! 5 = 0" by simp
  from r(6) [rule_format, of 9] l have b9: "data ! 9 = 0" by simp
  have "\<exists>s' data.
       GenerateSWAP cfg0 exe0 7 twoPages freePool = Inr (twoPages\<lparr>numPages := 5\<rparr>, s')
     \<and> fileSystem s' ''7.swap'' = Some data \<and> length data = 10
     \<and> data ! 0 = 11 \<and> data ! 2 = 13 \<and> data ! 3 = 21 \<and> data ! 4 = 22
     \<and> data ! 5 = 0 \<and> data ! 9 = 0"
    using r(1,2) l b0 b2 b3 b4 b5 b9 by (simp add: swapName_7)
  with n7 n120 swapName_7 swapName_examples(1) show ?thesis by blast
qed

subsection \<open>C10: the page table index is not checked\<close>




end
